theory Spec2Isabelle
  imports Main "HOL-Library.AList" "HOL-Library.Char_ord" "HOL-Library.List_Lexorder"
begin

section \<open>The Go string library, as far as MetaDat uses it\<close>

text \<open>
  A Go string is a byte sequence; it is modelled as a \<open>string\<close> (a list of 8-bit
  characters). The data and schema texts are taken to be ASCII: \<open>TrimSpace\<close> below
  strips the six ASCII white-space bytes, and the rune loop of \<open>splitObjectFields\<close>
  is a byte loop.
\<close>

definition isSpace :: "char \<Rightarrow> bool" where
  "isSpace c \<longleftrightarrow>
     c = CHR 0x09 \<or> c = CHR 0x0A \<or> c = CHR 0x0B \<or> c = CHR 0x0C \<or> c = CHR 0x0D \<or> c = CHR '' ''"

definition TrimRight :: "string \<Rightarrow> string" where
  "TrimRight s = rev (dropWhile isSpace (rev s))"

definition TrimSpace :: "string \<Rightarrow> string" where
  "TrimSpace s = TrimRight (dropWhile isSpace s)"

text \<open>\<open>strings.Index(s, c)\<close> for a one-byte needle: \<open>None\<close> stands for \<open>-1\<close>.\<close>

fun Index :: "string \<Rightarrow> char \<Rightarrow> nat option" where
  "Index [] c = None"
| "Index (x # xs) c = (if x = c then Some 0 else map_option Suc (Index xs c))"

definition Contains :: "string \<Rightarrow> char \<Rightarrow> bool" where
  "Contains s c \<longleftrightarrow> c \<in> set s"

definition HasPrefix :: "string \<Rightarrow> string \<Rightarrow> bool" where
  "HasPrefix s p \<longleftrightarrow> take (length p) s = p"

definition HasSuffix :: "string \<Rightarrow> string \<Rightarrow> bool" where
  "HasSuffix s p \<longleftrightarrow> length p \<le> length s \<and> drop (length s - length p) s = p"

definition TrimPrefix :: "string \<Rightarrow> string \<Rightarrow> string" where
  "TrimPrefix s p = (if HasPrefix s p then drop (length p) s else s)"

definition TrimSuffix :: "string \<Rightarrow> string \<Rightarrow> string" where
  "TrimSuffix s p = (if HasSuffix s p then take (length s - length p) s else s)"

text \<open>\<open>strings.Split(s, sep)\<close> for a one-byte separator; the result is never empty.\<close>

fun Split :: "string \<Rightarrow> char \<Rightarrow> string list" where
  "Split [] sep = [[]]"
| "Split (c # cs) sep =
     (if c = sep then [] # Split cs sep
      else (case Split cs sep of [] \<Rightarrow> [[c]] | p # ps \<Rightarrow> (c # p) # ps))"

fun Join :: "string list \<Rightarrow> string \<Rightarrow> string" where
  "Join [] sep = []"
| "Join [x] sep = x"
| "Join (x # y # ys) sep = x @ sep @ Join (y # ys) sep"

definition isDigit :: "char \<Rightarrow> bool" where
  "isDigit c \<longleftrightarrow> c \<in> set ''0123456789''"

definition digitVal :: "char \<Rightarrow> int" where
  "digitVal c = int (of_char c) - 48"

definition digitsVal :: "string \<Rightarrow> int" where
  "digitsVal ds = foldl (\<lambda>n c. 10 * n + digitVal c) 0 ds"

text \<open>
  \<open>strconv.ParseInt(s, 10, 64)\<close>: an optional sign, then at least one decimal digit
  and nothing else; a value outside the signed 64-bit range is an error.
\<close>

definition ParseInt :: "string \<Rightarrow> int option" where
  "ParseInt s =
     (let neg = (s \<noteq> [] \<and> hd s = CHR ''-'');
          ds = (if s \<noteq> [] \<and> (hd s = CHR ''+'' \<or> hd s = CHR ''-'') then tl s else s)
      in if ds = [] \<or> \<not> list_all isDigit ds then None
         else (let v = (if neg then - digitsVal ds else digitsVal ds)
               in if - (2 ^ 63) \<le> v \<and> v < 2 ^ 63 then Some v else None))"

text \<open>\<open>strconv.Atoi\<close> on a 64-bit platform accepts what \<open>ParseInt(s, 10, 64)\<close> accepts.\<close>

definition Atoi :: "string \<Rightarrow> int option" where
  "Atoi s = ParseInt s"

definition ParseBool :: "string \<Rightarrow> bool option" where
  "ParseBool s =
     (if s \<in> set [''1'', ''t'', ''T'', ''TRUE'', ''true'', ''True''] then Some True
      else if s \<in> set [''0'', ''f'', ''F'', ''FALSE'', ''false'', ''False''] then Some False
      else None)"

text \<open>Decimal rendering of an integer, as \<open>%d\<close> and \<open>%v\<close> print it.\<close>

function natToString :: "nat \<Rightarrow> string" where
  "natToString n =
     (if n < 10 then [char_of (48 + n)] else natToString (n div 10) @ [char_of (48 + n mod 10)])"
  by pat_completeness auto
termination
  by (relation "measure id") auto

declare natToString.simps [simp del]

definition intToString :: "int \<Rightarrow> string" where
  "intToString i = (if i < 0 then CHR ''-'' # natToString (nat (- i)) else natToString (nat i))"

text \<open>
  The exchange sort that the source writes out wherever it needs field names in
  alphabetical order (\<open>names[i] > names[j]\<close> compares bytewise).
\<close>

function sortInner :: "string list \<Rightarrow> nat \<Rightarrow> nat \<Rightarrow> string list" where
  "sortInner names i j =
     (if j < length names
      then sortInner (if names ! i > names ! j then names[i := names ! j, j := names ! i] else names)
             i (j + 1)
      else names)"
  by pat_completeness auto
termination
  by (relation "measure (\<lambda>(names, i, j). length names - j)") auto

declare sortInner.simps [simp del]

lemma length_sortInner: "length (sortInner names i j) = length names"
proof (induction names i j rule: sortInner.induct)
  case (1 names i j)
  show ?case
  proof (cases "j < length names")
    case True
    with "1.IH" show ?thesis by (subst sortInner.simps) simp
  next
    case False
    then show ?thesis by (subst sortInner.simps) simp
  qed
qed

function sortOuter :: "string list \<Rightarrow> nat \<Rightarrow> string list" where
  "sortOuter names i =
     (if i + 1 < length names then sortOuter (sortInner names i (i + 1)) (i + 1) else names)"
  by pat_completeness auto
termination
  by (relation "measure (\<lambda>(names, i). length names - i)") (simp_all add: length_sortInner)

declare sortOuter.simps [simp del]

definition sortNames :: "string list \<Rightarrow> string list" where
  "sortNames names = sortOuter names 0"

section \<open>The type model\<close>

text \<open>
  \<open>FieldType\<close> is the source's struct, field for field. A nil \<open>ElementType\<close> pointer is
  \<open>None\<close>. A Go map is an association list read with \<open>map_of\<close> and written with
  \<open>AList.update\<close>; the order of the list is the order in which a \<open>range\<close> over the
  map happens to visit it.
\<close>

datatype FieldType =
  FieldType (Type: string) (ElementType: "FieldType option")
    (ObjectFields: "(string \<times> FieldType) list") (ObjectOrder: "string list") (Name: string)

record Schema =
  Fields :: "(string \<times> FieldType) list"
  FieldOrder :: "string list"

text \<open>Every \<open>fmt.Errorf\<close> of the source is a constructor, with the values it formats.\<close>

datatype error =
    UnknownType string
  | InvalidObjectFieldFormat string
  | ErrorParsingType string error
  | NoSchemaLoaded
  | InvalidDataFormat nat string
  | UnknownField string
  | ErrorParsingField string error
  | ArraySizeMismatch int nat
  | InvalidIntegerValue string
  | InvalidFloat32Value string
  | InvalidFloat64Value string
  | InvalidBooleanValue string
  | InvalidIntegerForField string string
  | InvalidFloat32ForField string string
  | InvalidFloat64ForField string string
  | InvalidBooleanForField string string
  | NoSchemaDefined
  | ErrorWritingField string error
  | ExpectedArrayForField string
  | ExpectedObjectForField string
  | ExpectedObjectInArray
  | UnknownFieldType string
  | ValidationError string error
  | ExpectedString
  | ExpectedInteger
  | ExpectedFloat
  | ExpectedBool
  | ExpectedArray
  | ExpectedObject
  | ArrayElement nat error
  | ObjectField string error

section \<open>The schema grammar parser\<close>

text \<open>
  The loop of \<open>splitObjectFields\<close> over the characters of the object body, with its
  three variables \<open>fields\<close> (here \<open>flds\<close>), \<open>current\<close> and \<open>depth\<close>.
\<close>

function splitLoop :: "string \<Rightarrow> string list \<Rightarrow> string \<Rightarrow> int \<Rightarrow> string list" where
  "splitLoop [] flds current depth = (if current \<noteq> [] then flds @ [current] else flds)"
| "splitLoop (ch # rest) flds current depth =
     (if ch = CHR ''{'' then splitLoop rest flds (current @ [ch]) (depth + 1)
      else if ch = CHR ''}'' then splitLoop rest flds (current @ [ch]) (depth - 1)
      else if ch = CHR ''|'' then
        (if depth = 0 then splitLoop rest (flds @ [current]) [] depth
         else splitLoop rest flds (current @ [ch]) depth)
      else splitLoop rest flds (current @ [ch]) depth)"
  by pat_completeness auto
termination
  by (relation "measure (\<lambda>(s, flds, current, depth). length s)") auto

definition splitObjectFields :: "string \<Rightarrow> string list" where
  "splitObjectFields objectStr = splitLoop objectStr [] [] 0"

lemma splitLoop_weight:
  "(\<Sum>p\<leftarrow>splitLoop s flds current depth. Suc (length p))
     \<le> (\<Sum>p\<leftarrow>flds. Suc (length p)) + length current + length s + 1"
  by (induction s flds current depth rule: splitLoop.induct) auto

lemma splitObjectFields_weight:
  "(\<Sum>p\<leftarrow>splitObjectFields s. Suc (length p)) \<le> length s + 1"
  using splitLoop_weight [of s "[]" "[]" 0] by (simp add: splitObjectFields_def)

lemma length_TrimRight: "length (TrimRight s) \<le> length s"
  unfolding TrimRight_def
  by (metis length_dropWhile_le length_rev)

lemma length_TrimSpace: "length (TrimSpace s) \<le> length s"
  unfolding TrimSpace_def
  by (meson length_TrimRight length_dropWhile_le le_trans)

lemma Index_less: "Index s c = Some i \<Longrightarrow> i < length s"
  by (induction s arbitrary: i) (auto split: if_splits)

definition basicTypes :: "string list" where
  "basicTypes = [''string'', ''int'', ''int32'', ''int64'', ''float32'', ''float64'', ''bool'']"

function parseType :: "string \<Rightarrow> error + FieldType"
  and parseTypeFields ::
    "string list \<Rightarrow> (string \<times> FieldType) list \<Rightarrow> string list \<Rightarrow> error + FieldType"
where
  "parseType typeStr0 =
     (let typeStr = TrimSpace typeStr0 in
      if HasSuffix typeStr ''[]'' then
        (case parseType (TrimSuffix typeStr ''[]'') of
           Inl err \<Rightarrow> Inl err
         | Inr elementType \<Rightarrow> Inr (FieldType ''array'' (Some elementType) [] [] []))
      else if HasPrefix typeStr ''{'' \<and> HasSuffix typeStr ''}'' then
        parseTypeFields (splitObjectFields (butlast (tl typeStr))) [] []
      else if typeStr \<in> set basicTypes then Inr (FieldType typeStr None [] [] [])
      else Inl (UnknownType typeStr))"
| "parseTypeFields [] flds fieldOrder = Inr (FieldType ''object'' None flds fieldOrder [])"
| "parseTypeFields (pair # pairs) flds fieldOrder =
     (case Index pair CHR '':'' of
        None \<Rightarrow> Inl (InvalidObjectFieldFormat pair)
      | Some colonIndex \<Rightarrow>
          (let fieldName = TrimSpace (take colonIndex pair);
               fieldTypeStr = TrimSpace (drop (colonIndex + 1) pair)
           in case parseType fieldTypeStr of
                Inl err \<Rightarrow> Inl err
              | Inr fieldType \<Rightarrow>
                  parseTypeFields pairs
                    (AList.update fieldName
                       (FieldType (Type fieldType) (ElementType fieldType) (ObjectFields fieldType)
                          (ObjectOrder fieldType) fieldName) flds)
                    (fieldOrder @ [fieldName])))"
  by pat_completeness auto
termination
proof (relation "measure (\<lambda>x. case x of
          Inl s \<Rightarrow> Suc (length s)
        | Inr (pairs, flds, fieldOrder) \<Rightarrow> (\<Sum>p\<leftarrow>pairs. Suc (length p)))", goal_cases)
  case 1
  then show ?case by simp
next
  case (2 typeStr0 typeStr)
  then show ?case
    using length_TrimSpace [of typeStr0] by (auto simp: TrimSuffix_def HasSuffix_def)
next
  case (3 typeStr0 typeStr)
  then show ?case
    using length_TrimSpace [of typeStr0] splitObjectFields_weight [of "butlast (tl typeStr)"]
    by (auto simp: HasSuffix_def HasPrefix_def)
next
  case (4 pair pairs flds fieldOrder colonIndex fieldName fieldTypeStr)
  then show ?case
    using length_TrimSpace [of "drop (colonIndex + 1) pair"] Index_less [of pair "CHR '':''" colonIndex]
    by auto
next
  case (5 pair pairs flds fieldOrder colonIndex fieldName fieldTypeStr fieldType)
  then show ?case by simp
qed

declare parseType.simps [simp del]

text \<open>
  \<open>parseSchema\<close>: the loop over the lines of the meta section. On an error the source
  returns the schema built so far together with the error; every caller drops that
  schema, so the model returns the error alone.
\<close>

fun parseSchemaLines :: "string list \<Rightarrow> Schema \<Rightarrow> error + Schema" where
  "parseSchemaLines [] schema = Inr schema"
| "parseSchemaLines (l # ls) schema =
     (let line = TrimSpace l in
      if line = [] \<or> HasPrefix line ''#'' then parseSchemaLines ls schema
      else
        (case Index line CHR '':'' of
           None \<Rightarrow> parseSchemaLines ls schema
         | Some colonIndex \<Rightarrow>
             (let fieldName = TrimSpace (take colonIndex line);
                  typeStr = TrimSpace (drop (colonIndex + 1) line)
              in case parseType typeStr of
                   Inl err \<Rightarrow> Inl (ErrorParsingType fieldName err)
                 | Inr fieldType \<Rightarrow>
                     parseSchemaLines ls
                       \<lparr>Fields = AList.update fieldName fieldType (Fields schema),
                        FieldOrder = FieldOrder schema @ [fieldName]\<rparr>)))"

definition parseSchema :: "string \<Rightarrow> error + Schema" where
  "parseSchema metaContent =
     parseSchemaLines (Split (TrimSpace metaContent) CHR 0x0A) \<lparr>Fields = [], FieldOrder = []\<rparr>"

section \<open>Rendering a schema\<close>

text \<open>
  Reading a Go map at a key it does not hold gives the zero value. In
  \<open>fieldTypeToString\<close> the zero \<open>FieldType\<close> has the empty \<open>Type\<close> and renders as
  the empty string, which is what the \<open>None\<close> branch of the lookup returns.
\<close>

definition zeroFieldType :: FieldType where
  "zeroFieldType = FieldType [] None [] [] []"

definition lookupField :: "(string \<times> FieldType) list \<Rightarrow> string \<Rightarrow> FieldType" where
  "lookupField m name = (case map_of m name of None \<Rightarrow> zeroFieldType | Some ft \<Rightarrow> ft)"

function fieldTypeToString :: "FieldType \<Rightarrow> string" where
  "fieldTypeToString (FieldType t et ofs oo nm) =
     (if t = ''array'' then
        (case et of Some e \<Rightarrow> fieldTypeToString e @ ''[]'' | None \<Rightarrow> ''[]'')
      else if t = ''object'' then
        (let fieldNames = (if oo = [] then sortNames (map fst ofs) else oo)
         in ''{'' @ Join (map (\<lambda>name. name @ '':'' @
                                (case map_of ofs name of
                                   Some fieldType \<Rightarrow> fieldTypeToString fieldType
                                 | None \<Rightarrow> [])) fieldNames) ''|'' @ ''}'')
      else t)"
  by pat_completeness auto
termination
proof (relation "measure size", goal_cases)
  case 1
  then show ?case by simp
next
  case (2 t et ofs oo nm e)
  then show ?case by simp
next
  case (3 t et ofs oo nm fieldNames name fieldType)
  then have "(name, fieldType) \<in> set ofs" by (simp add: map_of_SomeD)
  then have "size fieldType < Suc (size_list (size_prod (\<lambda>_. 0) size) ofs)"
    by (induction ofs) auto
  then show ?case by simp
qed

definition GetFieldOrder :: "Schema \<Rightarrow> string list" where
  "GetFieldOrder s = (if FieldOrder s \<noteq> [] then FieldOrder s else sortNames (map fst (Fields s)))"

definition ToString :: "Schema \<Rightarrow> string" where
  "ToString s =
     foldl (\<lambda>buffer name.
              buffer @ ''    '' @ name @ '': '' @ fieldTypeToString (lookupField (Fields s) name)
                     @ [CHR 0x0A])
       [] (GetFieldOrder s)"

section \<open>Values\<close>

text \<open>
  A Go \<open>interface{}\<close> value, by its dynamic type: \<open>nil\<close>, a string, the integer and
  float types the source switches on, a bool, a \<open>[]interface{}\<close>, a
  \<open>map[string]interface{}\<close>, a slice of any other element type (\<open>VSlice\<close>), and any
  other value (\<open>VOther\<close>, carrying its \<open>%v\<close> rendering). Floating-point numbers
  are values of a type parameter \<open>'f\<close>; what the Go library computes on them is a
  parameter of the model, the record \<open>FloatLib\<close>: \<open>strconv.ParseFloat\<close> at a bit size,
  the \<open>%v\<close> rendering at a bit size, and the test \<open>v == float64(int(v))\<close>.
\<close>

datatype 'f Value =
    VNil
  | VString string
  | VInt int
  | VInt32 int
  | VInt64 int
  | VFloat32 'f
  | VFloat64 'f
  | VBool bool
  | VArray "'f Value list"
  | VObject "(string \<times> 'f Value) list"
  | VSlice "'f Value list"
  | VOther string

record 'f FloatLib =
  ParseFloat :: "string \<Rightarrow> nat \<Rightarrow> 'f option"
  FormatFloat :: "'f \<Rightarrow> nat \<Rightarrow> string"
  IsIntegral :: "'f \<Rightarrow> bool"

text \<open>A library with no floating-point numbers at all, for inputs that hold none.\<close>

definition noFloats :: "unit FloatLib" where
  "noFloats = \<lparr>ParseFloat = (\<lambda>s bits. None), FormatFloat = (\<lambda>v bits. []), IsIntegral = (\<lambda>v. False)\<rparr>"

section \<open>The type inferencer\<close>

fun inferFieldType :: "'f FloatLib \<Rightarrow> 'f Value \<Rightarrow> FieldType" where
  "inferFieldType L VNil = FieldType ''string'' None [] [] []"
| "inferFieldType L (VString v) = FieldType ''string'' None [] [] []"
| "inferFieldType L (VFloat64 v) =
     (if IsIntegral L v then FieldType ''int'' None [] [] [] else FieldType ''float64'' None [] [] [])"
| "inferFieldType L (VInt v) = FieldType ''int'' None [] [] []"
| "inferFieldType L (VInt32 v) = FieldType ''int'' None [] [] []"
| "inferFieldType L (VInt64 v) = FieldType ''int'' None [] [] []"
| "inferFieldType L (VFloat32 v) = FieldType ''float32'' None [] [] []"
| "inferFieldType L (VBool v) = FieldType ''bool'' None [] [] []"
| "inferFieldType L (VArray v) =
     FieldType ''array'' (case v of [] \<Rightarrow> None | first # rest \<Rightarrow> Some (inferFieldType L first))
       [] [] []"
| "inferFieldType L (VObject v) =
     (let flds = foldl (\<lambda>flds kv. AList.update (fst kv) (inferFieldType L (snd kv)) flds) [] v;
          objectOrder = foldl (\<lambda>objectOrder kv. objectOrder @ [fst kv]) [] v
      in FieldType ''object'' None flds objectOrder [])"
| "inferFieldType L (VSlice v) =
     FieldType ''array'' (Some (FieldType ''string'' None [] [] [])) [] [] []"
| "inferFieldType L (VOther v) = FieldType ''string'' None [] [] []"

definition InferSchemaFromJSON :: "'f FloatLib \<Rightarrow> 'f Value \<Rightarrow> Schema" where
  "InferSchemaFromJSON L data =
     (case data of
        VObject obj \<Rightarrow>
          foldl (\<lambda>schema kv.
                   \<lparr>Fields = AList.update (fst kv) (inferFieldType L (snd kv)) (Fields schema),
                    FieldOrder = FieldOrder schema @ [fst kv]\<rparr>)
            \<lparr>Fields = [], FieldOrder = []\<rparr> obj
      | _ \<Rightarrow> \<lparr>Fields = [], FieldOrder = []\<rparr>)"

section \<open>The value parser\<close>

definition intTypes :: "string list" where
  "intTypes = [''int'', ''int32'', ''int64'']"

text \<open>A line belongs to an indented block when it starts with four spaces or a tab.\<close>

definition indented :: "string \<Rightarrow> bool" where
  "indented line \<longleftrightarrow> HasPrefix line ''    '' \<or> HasPrefix line [CHR 0x09]"

text \<open>
  \<open>getObjectFieldOrder\<close> takes a pointer; \<open>None\<close> is the nil pointer. Every caller in
  the source passes a non-nil one.
\<close>

definition getObjectFieldOrder :: "FieldType option \<Rightarrow> string list" where
  "getObjectFieldOrder fieldType =
     (case fieldType of
        None \<Rightarrow> []
      | Some ft \<Rightarrow> if ObjectOrder ft \<noteq> [] then ObjectOrder ft else sortNames (map fst (ObjectFields ft)))"

definition getFieldOrder :: "(string \<times> FieldType) list \<Rightarrow> string list" where
  "getFieldOrder flds =
     (case find (\<lambda>kv. Type (snd kv) = ''object'' \<and> ObjectOrder (snd kv) \<noteq> []) flds of
        Some kv \<Rightarrow> ObjectOrder (snd kv)
      | None \<Rightarrow> sortNames (map fst flds))"

text \<open>
  \<open>parseObjectFromLine\<close>: the loop over the declared field order, \<open>i\<close> counting the
  position. The source also returns an integer that is always 0 and that no caller
  reads. The pointer argument is never nil at a call, so it is a \<open>FieldType\<close> here.
\<close>

fun parseObjectFromLineLoop ::
  "'f FloatLib \<Rightarrow> FieldType \<Rightarrow> string list \<Rightarrow> nat \<Rightarrow> string list
     \<Rightarrow> (string \<times> 'f Value) list \<Rightarrow> error + (string \<times> 'f Value) list"
where
  "parseObjectFromLineLoop L fieldType values i [] result = Inr result"
| "parseObjectFromLineLoop L fieldType values i (fieldName # rest) result =
     (if i \<ge> length values then Inr result
      else
        (let fieldDef = lookupField (ObjectFields fieldType) fieldName;
             valueStr = TrimSpace (values ! i)
         in if Type fieldDef \<in> set intTypes then
              (case ParseInt valueStr of
                 None \<Rightarrow> Inl (InvalidIntegerForField fieldName valueStr)
               | Some val \<Rightarrow>
                   parseObjectFromLineLoop L fieldType values (i + 1) rest
                     (AList.update fieldName (VInt val) result))
            else if Type fieldDef = ''float32'' then
              (case ParseFloat L valueStr 32 of
                 None \<Rightarrow> Inl (InvalidFloat32ForField fieldName valueStr)
               | Some val \<Rightarrow>
                   parseObjectFromLineLoop L fieldType values (i + 1) rest
                     (AList.update fieldName (VFloat32 val) result))
            else if Type fieldDef = ''float64'' then
              (case ParseFloat L valueStr 64 of
                 None \<Rightarrow> Inl (InvalidFloat64ForField fieldName valueStr)
               | Some val \<Rightarrow>
                   parseObjectFromLineLoop L fieldType values (i + 1) rest
                     (AList.update fieldName (VFloat64 val) result))
            else if Type fieldDef = ''bool'' then
              (case ParseBool valueStr of
                 None \<Rightarrow> Inl (InvalidBooleanForField fieldName valueStr)
               | Some val \<Rightarrow>
                   parseObjectFromLineLoop L fieldType values (i + 1) rest
                     (AList.update fieldName (VBool val) result))
            else
              parseObjectFromLineLoop L fieldType values (i + 1) rest
                (AList.update fieldName (VString valueStr) result)))"

definition parseObjectFromLine ::
  "'f FloatLib \<Rightarrow> string \<Rightarrow> FieldType \<Rightarrow> error + (string \<times> 'f Value) list"
where
  "parseObjectFromLine L line fieldType =
     parseObjectFromLineLoop L fieldType (Split line CHR ''|'') 0
       (getObjectFieldOrder (Some fieldType)) []"

text \<open>
  The element of a multi-line array: an object decoded from the trimmed line when the
  element type is an object type, the trimmed line itself otherwise.
\<close>

definition isObjectElement :: "FieldType \<Rightarrow> bool" where
  "isObjectElement fieldType \<longleftrightarrow>
     (case ElementType fieldType of None \<Rightarrow> False | Some et \<Rightarrow> Type et = ''object'')"

text \<open>
  The loop of \<open>parseArray\<close> over \<open>lines[i], lines[i+1], ...\<close>: the list argument is
  \<open>drop i lines\<close>.
\<close>

fun parseArrayLoop ::
  "'f FloatLib \<Rightarrow> FieldType \<Rightarrow> nat \<Rightarrow> string list \<Rightarrow> nat \<Rightarrow> 'f Value list
     \<Rightarrow> error + ('f Value list \<times> nat)"
where
  "parseArrayLoop L fieldType arraySize [] i result = Inr (result, i)"
| "parseArrayLoop L fieldType arraySize (line # rest) i result =
     (if \<not> indented line then Inr (result, i)
      else
        (let trimmedLine = TrimSpace line in
         if trimmedLine = [] then parseArrayLoop L fieldType arraySize rest (i + 1) result
         else if length result \<ge> arraySize then Inr (result, i)
         else if isObjectElement fieldType then
           (case parseObjectFromLine L trimmedLine (the (ElementType fieldType)) of
              Inl err \<Rightarrow> Inl err
            | Inr obj \<Rightarrow>
                parseArrayLoop L fieldType arraySize rest (i + 1) (result @ [VObject obj]))
         else parseArrayLoop L fieldType arraySize rest (i + 1) (result @ [VString trimmedLine])))"

definition parseArray ::
  "'f FloatLib \<Rightarrow> FieldType \<Rightarrow> string \<Rightarrow> string list \<Rightarrow> nat \<Rightarrow> error + ('f Value list \<times> nat)"
where
  "parseArray L fieldType valueStr lines currentIndex =
     (if valueStr \<noteq> [] \<and> Contains valueStr CHR ''|'' then
        Inr (map (\<lambda>v. VString (TrimSpace v)) (Split valueStr CHR ''|''), currentIndex + 1)
      else
        parseArrayLoop L fieldType 50000 (drop (currentIndex + 1) lines) (currentIndex + 1) [])"

text \<open>
  The test the source repeats for each non-string scalar kind: with an empty same-line
  value, a next line whose trimmed text is not empty and holds no colon replaces the
  value, and the index moves on by one.
\<close>

definition nextLineValue :: "string \<Rightarrow> string list \<Rightarrow> nat \<Rightarrow> string \<times> nat" where
  "nextLineValue valueStr lines currentIndex =
     (if valueStr = [] \<and> currentIndex + 1 < length lines then
        (let nextLine = TrimSpace (lines ! (currentIndex + 1)) in
         if nextLine \<noteq> [] \<and> \<not> Contains nextLine CHR '':'' then (nextLine, currentIndex + 1)
         else (valueStr, currentIndex))
      else (valueStr, currentIndex))"

text \<open>
  \<open>parseValue\<close> and \<open>parseObject\<close> call each other. \<open>parseObjectFields\<close> is the
  field-by-field loop of \<open>parseObject\<close>. Looking a name up that \<open>ObjectFields\<close> does
  not hold gives the zero \<open>FieldType\<close>, on which \<open>parseValue\<close> takes its default
  branch: the \<open>None\<close> branch of the lookup returns that error.
\<close>

lemma size_field_less:
  fixes fieldDef :: FieldType
  shows "(name, fieldDef) \<in> set flds \<Longrightarrow> size fieldDef < Suc (size_list (size_prod (\<lambda>_. 0) size) flds)"
  by (induction flds) auto

function parseValue ::
    "'f FloatLib \<Rightarrow> FieldType \<Rightarrow> string \<Rightarrow> string list \<Rightarrow> nat \<Rightarrow> error + ('f Value \<times> nat)"
  and parseObject ::
    "'f FloatLib \<Rightarrow> FieldType \<Rightarrow> string \<Rightarrow> string list \<Rightarrow> nat \<Rightarrow> error + ('f Value \<times> nat)"
  and parseObjectFields ::
    "'f FloatLib \<Rightarrow> FieldType \<Rightarrow> string list \<Rightarrow> string list \<Rightarrow> nat
       \<Rightarrow> (string \<times> 'f Value) list \<Rightarrow> error + ('f Value \<times> nat)"
where
  "parseValue L fieldType valueStr lines currentIndex =
     (if Type fieldType = ''string'' then
        (if valueStr = [] \<and> currentIndex + 1 < length lines
            \<and> indented (lines ! (currentIndex + 1))
         then Inr (VString (TrimSpace (lines ! (currentIndex + 1))), currentIndex + 2)
         else Inr (VString valueStr, currentIndex + 1))
      else if Type fieldType \<in> set intTypes then
        (let (valueStr', currentIndex') = nextLineValue valueStr lines currentIndex in
         case ParseInt (TrimSpace valueStr') of
           None \<Rightarrow> Inl (InvalidIntegerValue valueStr')
         | Some val \<Rightarrow> Inr (VInt val, currentIndex' + 1))
      else if Type fieldType = ''float32'' then
        (let (valueStr', currentIndex') = nextLineValue valueStr lines currentIndex in
         case ParseFloat L (TrimSpace valueStr') 32 of
           None \<Rightarrow> Inl (InvalidFloat32Value valueStr')
         | Some val \<Rightarrow> Inr (VFloat32 val, currentIndex' + 1))
      else if Type fieldType = ''float64'' then
        (let (valueStr', currentIndex') = nextLineValue valueStr lines currentIndex in
         case ParseFloat L (TrimSpace valueStr') 64 of
           None \<Rightarrow> Inl (InvalidFloat64Value valueStr')
         | Some val \<Rightarrow> Inr (VFloat64 val, currentIndex' + 1))
      else if Type fieldType = ''bool'' then
        (let (valueStr', currentIndex') = nextLineValue valueStr lines currentIndex in
         case ParseBool (TrimSpace valueStr') of
           None \<Rightarrow> Inl (InvalidBooleanValue valueStr')
         | Some val \<Rightarrow> Inr (VBool val, currentIndex' + 1))
      else if Type fieldType = ''array'' then
        (case parseArray L fieldType valueStr lines currentIndex of
           Inl err \<Rightarrow> Inl err
         | Inr (arr, i) \<Rightarrow> Inr (VArray arr, i))
      else if Type fieldType = ''object'' then
        parseObject L fieldType valueStr lines currentIndex
      else Inl (UnknownType (Type fieldType)))"
| "parseObject L fieldType valueStr lines currentIndex =
     (if valueStr \<noteq> [] \<and> Contains valueStr CHR ''|'' then
        (case parseObjectFromLine L valueStr fieldType of
           Inl err \<Rightarrow> Inl err
         | Inr obj \<Rightarrow> Inr (VObject obj, currentIndex + 1))
      else
        (let i = currentIndex + 1 in
         if i < length lines \<and> TrimSpace (lines ! i) \<noteq> []
            \<and> Contains (TrimSpace (lines ! i)) CHR ''|''
         then
           (case parseObjectFromLine L (TrimSpace (lines ! i)) fieldType of
              Inl err \<Rightarrow> Inl err
            | Inr obj \<Rightarrow> Inr (VObject obj, i + 1))
         else
           parseObjectFields L fieldType lines (getFieldOrder (ObjectFields fieldType)) i []))"
| "parseObjectFields L fieldType lines [] i result = Inr (VObject result, i)"
| "parseObjectFields L fieldType lines (fieldName # rest) i result =
     (if i \<ge> length lines then Inr (VObject result, i)
      else
        (let line = TrimSpace (lines ! i) in
         if line = [] then parseObjectFields L fieldType lines rest (i + 1) result
         else if HasPrefix line (fieldName @ '':'') then
           (case map_of (ObjectFields fieldType) fieldName of
              None \<Rightarrow> Inl (UnknownType [])
            | Some fieldDef \<Rightarrow>
                (case parseValue L fieldDef (TrimSpace (TrimPrefix line (fieldName @ '':''))) lines i of
                   Inl err \<Rightarrow> Inl err
                 | Inr (val, newIndex) \<Rightarrow>
                     parseObjectFields L fieldType lines rest newIndex
                       (AList.update fieldName val result)))
         else parseObjectFields L fieldType lines rest i result))"
  by pat_completeness auto
termination
proof (relation "inv_image (less_than <*lex*> less_than) (\<lambda>x. case x of
          Inl (L, fieldType, valueStr, lines, currentIndex) \<Rightarrow> (3 * size fieldType + 2, 0)
        | Inr (Inl (L, fieldType, valueStr, lines, currentIndex)) \<Rightarrow> (3 * size fieldType + 1, 0)
        | Inr (Inr (L, fieldType, lines, fieldOrder, i, result)) \<Rightarrow>
            (3 * size fieldType, length fieldOrder))", goal_cases)
  case 1
  then show ?case by (intro wf_inv_image wf_lex_prod wf_less_than)
next
  case (2 L fieldType valueStr lines currentIndex)
  then show ?case by simp
next
  case (3 L fieldType valueStr lines currentIndex i)
  then show ?case by simp
next
  case (4 L fieldType lines fieldName rest i result line)
  then show ?case by simp
next
  case (5 L fieldType lines fieldName rest i result line fieldDef)
  then have "(fieldName, fieldDef) \<in> set (ObjectFields fieldType)" by (simp add: map_of_SomeD)
  then have "size fieldDef < Suc (size_list (size_prod (\<lambda>_. 0) size) (ObjectFields fieldType))"
    by (rule size_field_less)
  then show ?case by (cases fieldType) simp
next
  case (6 L fieldType lines fieldName rest i result line fieldDef x val newIndex)
  then show ?case by simp
next
  case (7 L fieldType lines fieldName rest i result line)
  then show ?case by simp
qed

declare parseValue.simps [simp del] parseObject.simps [simp del]

text \<open>
  The loop of \<open>parseArrayWithDeclaredSize\<close>, on \<open>drop i lines\<close> as above. The
  capacity \<open>expectedSize\<close> that the source computes for \<open>make\<close> has no effect on the
  result and is left out.
\<close>

fun parseDeclaredLoop ::
  "'f FloatLib \<Rightarrow> FieldType \<Rightarrow> int \<Rightarrow> string list \<Rightarrow> nat \<Rightarrow> 'f Value list
     \<Rightarrow> error + ('f Value list \<times> nat)"
where
  "parseDeclaredLoop L fieldType declaredSize [] i result = Inr (result, i)"
| "parseDeclaredLoop L fieldType declaredSize (line # rest) i result =
     (if \<not> (declaredSize \<le> 0 \<or> int (length result) < declaredSize) then Inr (result, i)
      else if \<not> indented line then Inr (result, i)
      else
        (let trimmedLine = TrimSpace line in
         if trimmedLine = [] then parseDeclaredLoop L fieldType declaredSize rest (i + 1) result
         else if isObjectElement fieldType then
           (case parseObjectFromLine L trimmedLine (the (ElementType fieldType)) of
              Inl err \<Rightarrow> Inl err
            | Inr obj \<Rightarrow>
                parseDeclaredLoop L fieldType declaredSize rest (i + 1) (result @ [VObject obj]))
         else
           parseDeclaredLoop L fieldType declaredSize rest (i + 1) (result @ [VString trimmedLine])))"

definition parseArrayWithDeclaredSize ::
  "'f FloatLib \<Rightarrow> FieldType \<Rightarrow> string \<Rightarrow> string list \<Rightarrow> nat \<Rightarrow> int
     \<Rightarrow> error + ('f Value list \<times> nat)"
where
  "parseArrayWithDeclaredSize L fieldType valueStr lines currentIndex declaredSize =
     (if valueStr \<noteq> [] \<and> Contains valueStr CHR ''|'' then
        (let values = Split valueStr CHR ''|'' in
         if declaredSize > 0 \<and> int (length values) \<noteq> declaredSize
         then Inl (ArraySizeMismatch declaredSize (length values))
         else Inr (map (\<lambda>v. VString (TrimSpace v)) values, currentIndex + 1))
      else
        (case parseDeclaredLoop L fieldType declaredSize (drop (currentIndex + 1) lines)
                (currentIndex + 1) [] of
           Inl err \<Rightarrow> Inl err
         | Inr (result, i) \<Rightarrow>
             if declaredSize > 0 \<and> int (length result) \<noteq> declaredSize
             then Inl (ArraySizeMismatch declaredSize (length result))
             else Inr (result, i)))"

definition parseValueWithArraySize ::
  "'f FloatLib \<Rightarrow> FieldType \<Rightarrow> string \<Rightarrow> string list \<Rightarrow> nat \<Rightarrow> int
     \<Rightarrow> error + ('f Value \<times> nat)"
where
  "parseValueWithArraySize L fieldType valueStr lines currentIndex arraySize =
     (if Type fieldType = ''array'' then
        (case parseArrayWithDeclaredSize L fieldType valueStr lines currentIndex arraySize of
           Inl err \<Rightarrow> Inl err
         | Inr (arr, i) \<Rightarrow> Inr (VArray arr, i))
      else parseValue L fieldType valueStr lines currentIndex)"

text \<open>
  The array notation \<open>name[size]\<close> of a data line: the field name and the declared
  size, 0 when none is declared or the size is not a number.
\<close>

definition arrayNotation :: "string \<Rightarrow> string \<times> int" where
  "arrayNotation fieldNameWithSize =
     (case Index fieldNameWithSize CHR ''['' of
        None \<Rightarrow> (fieldNameWithSize, 0)
      | Some bracketIndex \<Rightarrow>
          (case Index fieldNameWithSize CHR '']'' of
             None \<Rightarrow> (fieldNameWithSize, 0)
           | Some closeBracketIndex \<Rightarrow>
               if closeBracketIndex > bracketIndex then
                 (take bracketIndex fieldNameWithSize,
                  case Atoi (take (closeBracketIndex - (bracketIndex + 1))
                               (drop (bracketIndex + 1) fieldNameWithSize)) of
                    None \<Rightarrow> 0
                  | Some size' \<Rightarrow> size')
               else (fieldNameWithSize, 0)))"

lemma parseArrayLoop_index:
  "parseArrayLoop L fieldType arraySize ls i result = Inr (res, j) \<Longrightarrow> i \<le> j"
proof (induction ls arbitrary: i result)
  case Nil
  then show ?case by simp
next
  case (Cons line rest)
  from Cons.prems show ?case
    by (auto simp: Let_def split: if_splits sum.splits dest!: Cons.IH)
qed

lemma parseDeclaredLoop_index:
  "parseDeclaredLoop L fieldType declaredSize ls i result = Inr (res, j) \<Longrightarrow> i \<le> j"
proof (induction ls arbitrary: i result)
  case Nil
  then show ?case by simp
next
  case (Cons line rest)
  from Cons.prems show ?case
    by (auto simp: Let_def split: if_splits sum.splits dest!: Cons.IH)
qed

lemma nextLineValue_index:
  "nextLineValue valueStr lines i = (v, j) \<Longrightarrow> i \<le> j"
  by (auto simp: nextLineValue_def Let_def split: if_splits)

lemma parseValue_index:
  "parseValue L fieldType valueStr lines currentIndex = Inr (v, j) \<Longrightarrow> currentIndex < j"
  "parseObject L fieldType valueStr lines currentIndex = Inr (v, j) \<Longrightarrow> currentIndex < j"
  "parseObjectFields L fieldType lines fieldOrder i result = Inr (v, j) \<Longrightarrow> i \<le> j"
proof (induction L fieldType valueStr lines currentIndex
         and L fieldType valueStr lines currentIndex
         and L fieldType lines fieldOrder i result
         arbitrary: v j and v j and v j
         rule: parseValue_parseObject_parseObjectFields.induct)
  case (1 L fieldType valueStr lines currentIndex)
  show ?case
  proof (cases "Type fieldType = ''object''")
    case True
    with "1.prems" have "parseObject L fieldType valueStr lines currentIndex = Inr (v, j)"
      by (subst (asm) parseValue.simps) (simp add: intTypes_def)
    with True show ?thesis
      by (intro "1.IH") (simp_all add: intTypes_def)
  next
    case False
    with "1.prems" show ?thesis
      apply (subst (asm) parseValue.simps)
      apply (auto simp: Let_def parseArray_def
                  split: if_splits prod.splits option.splits sum.splits
                  dest!: nextLineValue_index parseArrayLoop_index)
      done
  qed
next
  case (2 L fieldType valueStr lines currentIndex)
  let ?c1 = "valueStr \<noteq> [] \<and> Contains valueStr CHR ''|''"
  let ?c2 = "currentIndex + 1 < length lines \<and> TrimSpace (lines ! (currentIndex + 1)) \<noteq> []
               \<and> Contains (TrimSpace (lines ! (currentIndex + 1))) CHR ''|''"
  show ?case
  proof (cases "?c1 \<or> ?c2")
    case True
    with "2.prems" show ?thesis
      by (subst (asm) parseObject.simps) (auto simp: Let_def split: if_splits sum.splits)
  next
    case False
    with "2.prems" have
      "parseObjectFields L fieldType lines (getFieldOrder (ObjectFields fieldType))
         (currentIndex + 1) [] = Inr (v, j)"
      by (subst (asm) parseObject.simps) (auto simp: Let_def split: if_splits)
    with False have "currentIndex + 1 \<le> j"
      by (intro "2.IH" [of "currentIndex + 1"]) auto
    then show ?thesis by simp
  qed
next
  case (3 L fieldType lines i result)
  then show ?case by simp
next
  case (4 L fieldType lines fieldName rest i result)
  let ?line = "TrimSpace (lines ! i)"
  consider (eof) "i \<ge> length lines"
    | (blank) "i < length lines" "?line = []"
    | (field) "i < length lines" "?line \<noteq> []" "HasPrefix ?line (fieldName @ '':'')"
    | (other) "i < length lines" "?line \<noteq> []" "\<not> HasPrefix ?line (fieldName @ '':'')"
    by fastforce
  then show ?case
  proof cases
    case eof
    with "4.prems" show ?thesis by simp
  next
    case blank
    with "4.prems" have "parseObjectFields L fieldType lines rest (i + 1) result = Inr (v, j)"
      by (simp add: Let_def)
    with blank have "i + 1 \<le> j"
      by (intro "4.IH"(1)) auto
    then show ?thesis by simp
  next
    case field
    with "4.prems" obtain fieldDef val newIndex where
      def: "map_of (ObjectFields fieldType) fieldName = Some fieldDef" and
      pv: "parseValue L fieldDef (TrimSpace (TrimPrefix ?line (fieldName @ '':''))) lines i
             = Inr (val, newIndex)" and
      rest: "parseObjectFields L fieldType lines rest newIndex (AList.update fieldName val result)
             = Inr (v, j)"
      by (auto simp: Let_def split: option.splits sum.splits)
    from field def pv have "i < newIndex"
      by (intro "4.IH"(2)) auto
    moreover from field def pv rest have "newIndex \<le> j"
      by (intro "4.IH"(3)) auto
    ultimately show ?thesis by simp
  next
    case other
    with "4.prems" have "parseObjectFields L fieldType lines rest i result = Inr (v, j)"
      by (simp add: Let_def)
    with other show ?thesis
      by (intro "4.IH"(4)) auto
  qed
qed

lemma parseValueWithArraySize_index:
  "parseValueWithArraySize L fieldType valueStr lines i arraySize = Inr (v, j) \<Longrightarrow> i < j"
  by (auto simp: parseValueWithArraySize_def parseArrayWithDeclaredSize_def Let_def
           split: if_splits sum.splits prod.splits
           dest!: parseDeclaredLoop_index parseValue_index(1))

text \<open>The loop of \<open>ParseData\<close> over the lines, with its cursor \<open>i\<close> and the result map.\<close>

function ParseDataLoop ::
  "'f FloatLib \<Rightarrow> Schema \<Rightarrow> string list \<Rightarrow> nat \<Rightarrow> (string \<times> 'f Value) list
     \<Rightarrow> error + (string \<times> 'f Value) list"
where
  "ParseDataLoop L schema lines i result =
     (if i < length lines then
        (let line = TrimSpace (lines ! i) in
         if line = [] then ParseDataLoop L schema lines (i + 1) result
         else
           (case Index line CHR '':'' of
              None \<Rightarrow> Inl (InvalidDataFormat (i + 1) line)
            | Some colonIndex \<Rightarrow>
                (let fieldNameWithSize = TrimSpace (take colonIndex line);
                     fieldValue = TrimSpace (drop (colonIndex + 1) line);
                     fieldName = fst (arrayNotation fieldNameWithSize);
                     arraySize = snd (arrayNotation fieldNameWithSize)
                 in case map_of (Fields schema) fieldName of
                      None \<Rightarrow> Inl (UnknownField fieldName)
                    | Some fieldType \<Rightarrow>
                        (case parseValueWithArraySize L fieldType fieldValue lines i arraySize of
                           Inl err \<Rightarrow> Inl (ErrorParsingField fieldName err)
                         | Inr (val, newIndex) \<Rightarrow>
                             ParseDataLoop L schema lines newIndex
                               (AList.update fieldName val result)))))
      else Inr result)"
  by pat_completeness auto
termination
proof (relation "measure (\<lambda>(L, schema, lines, i, result). length lines - i)", goal_cases)
  case 1
  then show ?case by simp
next
  case (2 L schema lines i result line)
  then show ?case by simp
next
  case (3 L schema lines i result line colonIndex fieldNameWithSize fieldValue fieldName arraySize
          fieldType x val newIndex)
  then have "i < newIndex"
    using parseValueWithArraySize_index [of L fieldType fieldValue lines i arraySize val newIndex]
    by simp
  with 3 show ?case by simp
qed

declare ParseDataLoop.simps [simp del]

definition ParseData :: "'f FloatLib \<Rightarrow> Schema \<Rightarrow> string \<Rightarrow> error + (string \<times> 'f Value) list" where
  "ParseData L schema dataContent =
     (if Fields schema = [] then Inl NoSchemaLoaded
      else ParseDataLoop L schema (Split (TrimSpace dataContent) CHR 0x0A) 0 [])"

section \<open>The writer\<close>

text \<open>
  \<open>fmt.Sprintf("%v", x)\<close>: a string prints as itself, a slice as its elements between
  brackets, a map as its entries in key order.
\<close>

fun fmtV :: "'f FloatLib \<Rightarrow> 'f Value \<Rightarrow> string" where
  "fmtV L VNil = ''<nil>''"
| "fmtV L (VString s) = s"
| "fmtV L (VInt i) = intToString i"
| "fmtV L (VInt32 i) = intToString i"
| "fmtV L (VInt64 i) = intToString i"
| "fmtV L (VFloat32 f) = FormatFloat L f 32"
| "fmtV L (VFloat64 f) = FormatFloat L f 64"
| "fmtV L (VBool b) = (if b then ''true'' else ''false'')"
| "fmtV L (VArray xs) = ''['' @ Join (map (fmtV L) xs) '' '' @ '']''"
| "fmtV L (VSlice xs) = ''['' @ Join (map (fmtV L) xs) '' '' @ '']''"
| "fmtV L (VObject m) =
     ''map['' @ Join (map (\<lambda>kv. fst kv @ '':'' @ fmtV L (snd kv)) (sort_key fst m)) '' '' @ '']''"
| "fmtV L (VOther s) = s"

definition isSimpleType :: "string \<Rightarrow> bool" where
  "isSimpleType t \<longleftrightarrow>
     t = ''string'' \<or> t = ''int'' \<or> t = ''int32'' \<or> t = ''int64'' \<or>
     t = ''float32'' \<or> t = ''float64'' \<or> t = ''bool''"

text \<open>\<open>convertToInterfaceSlice\<close>: the elements of a slice, \<open>None\<close> (nil) for any other value.\<close>

definition convertToInterfaceSlice :: "'f Value \<Rightarrow> 'f Value list option" where
  "convertToInterfaceSlice v =
     (case v of VArray xs \<Rightarrow> Some xs | VSlice xs \<Rightarrow> Some xs | _ \<Rightarrow> None)"

definition Repeat :: "string \<Rightarrow> nat \<Rightarrow> string" where
  "Repeat s n = concat (replicate n s)"

text \<open>\<open>strings.TrimRight(s, "\n")\<close>.\<close>

definition TrimRightNewlines :: "string \<Rightarrow> string" where
  "TrimRightNewlines s = rev (dropWhile (\<lambda>c. c = CHR 0x0A) (rev s))"

text \<open>
  The values of an object in the declared field order, each printed with \<open>%v\<close>; a
  field the object does not hold is skipped.
\<close>

definition objectValues :: "'f FloatLib \<Rightarrow> FieldType \<Rightarrow> (string \<times> 'f Value) list \<Rightarrow> string list" where
  "objectValues L fieldType obj =
     foldl (\<lambda>values fieldName.
              case map_of obj fieldName of
                Some val \<Rightarrow> values @ [fmtV L val]
              | None \<Rightarrow> values)
       [] (getObjectFieldOrder (Some fieldType))"

definition writeArrayItem ::
  "'f FloatLib \<Rightarrow> 'f Value \<Rightarrow> FieldType option \<Rightarrow> nat \<Rightarrow> error + string"
where
  "writeArrayItem L item itemType indent =
     (let indentStr = Repeat ''    '' indent in
      case itemType of
        None \<Rightarrow> Inr (indentStr @ fmtV L item)
      | Some it \<Rightarrow>
          if Type it = ''object'' then
            (case item of
               VObject obj \<Rightarrow> Inr (indentStr @ Join (objectValues L it obj) ''|'')
             | _ \<Rightarrow> Inl ExpectedObjectInArray)
          else Inr (indentStr @ fmtV L item))"

text \<open>The loop of \<open>writeField\<close> over the items of an array of a complex element type.\<close>

fun writeArrayItems ::
  "'f FloatLib \<Rightarrow> 'f Value list \<Rightarrow> FieldType option \<Rightarrow> nat \<Rightarrow> string \<Rightarrow> error + string"
where
  "writeArrayItems L [] itemType indent buffer = Inr buffer"
| "writeArrayItems L (item # rest) itemType indent buffer =
     (case writeArrayItem L item itemType indent of
        Inl err \<Rightarrow> Inl err
      | Inr itemStr \<Rightarrow> writeArrayItems L rest itemType indent (buffer @ itemStr @ [CHR 0x0A]))"

definition writeField ::
  "'f FloatLib \<Rightarrow> string \<Rightarrow> 'f Value \<Rightarrow> FieldType \<Rightarrow> nat \<Rightarrow> error + string"
where
  "writeField L name val fieldType indent =
     (let indentStr = Repeat ''    '' indent in
      if Type fieldType = ''string'' \<or> Type fieldType \<in> set intTypes
         \<or> Type fieldType = ''float32'' \<or> Type fieldType = ''float64''
         \<or> Type fieldType = ''bool''
      then Inr (indentStr @ name @ '':'' @ [CHR 0x0A] @ indentStr @ ''    '' @ fmtV L val)
      else if Type fieldType = ''array'' then
        (case (case val of VArray arr \<Rightarrow> Some arr | _ \<Rightarrow> convertToInterfaceSlice val) of
           None \<Rightarrow> Inl (ExpectedArrayForField name)
         | Some arr \<Rightarrow>
             (let buffer = indentStr @ name @ ''['' @ intToString (int (length arr)) @ '']:'' in
              if arr = [] then Inr buffer
              else if ElementType fieldType \<noteq> None
                      \<and> isSimpleType (Type (the (ElementType fieldType)))
              then Inr (TrimRightNewlines (buffer @ '' '' @ Join (map (fmtV L) arr) ''|''))
              else
                (case writeArrayItems L arr (ElementType fieldType) (indent + 1)
                        (buffer @ [CHR 0x0A]) of
                   Inl err \<Rightarrow> Inl err
                 | Inr buffer' \<Rightarrow> Inr (TrimRightNewlines buffer'))))
      else if Type fieldType = ''object'' then
        (case val of
           VObject obj \<Rightarrow>
             Inr (indentStr @ name @ '':'' @ [CHR 0x0A] @ indentStr @ ''    ''
                    @ Join (objectValues L fieldType obj) ''|'')
         | _ \<Rightarrow> Inl (ExpectedObjectForField name))
      else Inl (UnknownFieldType (Type fieldType)))"

text \<open>The loop of \<open>writeData\<close> over the schema's field order.\<close>

fun writeDataLoop ::
  "'f FloatLib \<Rightarrow> Schema \<Rightarrow> (string \<times> 'f Value) list \<Rightarrow> string list \<Rightarrow> string \<Rightarrow> error + string"
where
  "writeDataLoop L schema data [] buffer = Inr buffer"
| "writeDataLoop L schema data (fieldName # rest) buffer =
     (case map_of (Fields schema) fieldName of
        None \<Rightarrow> writeDataLoop L schema data rest buffer
      | Some fieldType \<Rightarrow>
          (case map_of data fieldName of
             None \<Rightarrow> writeDataLoop L schema data rest buffer
           | Some val \<Rightarrow>
               (case writeField L fieldName val fieldType 0 of
                  Inl err \<Rightarrow> Inl (ErrorWritingField fieldName err)
                | Inr fieldStr \<Rightarrow>
                    writeDataLoop L schema data rest
                      (buffer @ fieldStr
                         @ (if HasSuffix fieldStr [CHR 0x0A] then [] else [CHR 0x0A])))))"

definition writeData :: "'f FloatLib \<Rightarrow> Schema \<Rightarrow> (string \<times> 'f Value) list \<Rightarrow> error + string" where
  "writeData L schema data = writeDataLoop L schema data (GetFieldOrder schema) []"

section \<open>The validator\<close>

text \<open>
  A Go \<open>error\<close> result is an \<open>error option\<close>, \<open>None\<close> for nil. \<open>validateElems\<close> and
  \<open>validateFields\<close> are the loops of \<open>validateValue\<close> over the elements of an array
  and over the entries of \<open>ObjectFields\<close>.
\<close>

fun validateValue :: "'f Value \<Rightarrow> FieldType \<Rightarrow> error option"
  and validateElems :: "'f Value list \<Rightarrow> FieldType \<Rightarrow> nat \<Rightarrow> error option"
  and validateFields :: "(string \<times> FieldType) list \<Rightarrow> (string \<times> 'f Value) list \<Rightarrow> error option"
where
  "validateValue val (FieldType t et ofs oo nm) =
     (if t = ''string'' then
        (case val of VString s \<Rightarrow> None | _ \<Rightarrow> Some ExpectedString)
      else if t \<in> set intTypes then
        (case val of
           VInt i \<Rightarrow> None | VInt32 i \<Rightarrow> None | VInt64 i \<Rightarrow> None | VFloat64 f \<Rightarrow> None
         | _ \<Rightarrow> Some ExpectedInteger)
      else if t = ''float32'' \<or> t = ''float64'' then
        (case val of
           VFloat32 f \<Rightarrow> None | VFloat64 f \<Rightarrow> None | VInt i \<Rightarrow> None
         | _ \<Rightarrow> Some ExpectedFloat)
      else if t = ''bool'' then
        (case val of VBool b \<Rightarrow> None | _ \<Rightarrow> Some ExpectedBool)
      else if t = ''array'' then
        (case val of
           VArray arr \<Rightarrow>
             (case et of None \<Rightarrow> None | Some elementType \<Rightarrow> validateElems arr elementType 0)
         | _ \<Rightarrow> Some ExpectedArray)
      else if t = ''object'' then
        (case val of
           VObject obj \<Rightarrow> validateFields ofs obj
         | _ \<Rightarrow> Some ExpectedObject)
      else Some (UnknownType t))"
| "validateElems [] elementType i = None"
| "validateElems (elem # rest) elementType i =
     (case validateValue elem elementType of
        Some err \<Rightarrow> Some (ArrayElement i err)
      | None \<Rightarrow> validateElems rest elementType (i + 1))"
| "validateFields [] obj = None"
| "validateFields ((fieldName, fieldDef) # rest) obj =
     (case map_of obj fieldName of
        Some val \<Rightarrow>
          (case validateValue val fieldDef of
             Some err \<Rightarrow> Some (ObjectField fieldName err)
           | None \<Rightarrow> validateFields rest obj)
      | None \<Rightarrow> validateFields rest obj)"




section \<open>Properties of the schema grammar parser\<close>

text \<open>
  The brace depth after scanning \<open>s\<close> from depth \<open>d\<close>, and whether that scan meets a
  pipe at depth 0. A piece \<open>p\<close> with \<open>noTopPipe 0 p\<close> and \<open>depthAfter 0 p = 0\<close> is one
  field of an object body: its braces are closed again and all its pipes lie inside them.
\<close>

fun depthAfter :: "int \<Rightarrow> string \<Rightarrow> int" where
  "depthAfter d [] = d"
| "depthAfter d (ch # rest) =
     depthAfter (if ch = CHR ''{'' then d + 1 else if ch = CHR ''}'' then d - 1 else d) rest"

fun noTopPipe :: "int \<Rightarrow> string \<Rightarrow> bool" where
  "noTopPipe d [] = True"
| "noTopPipe d (ch # rest) =
     (if ch = CHR ''|'' then d \<noteq> 0 \<and> noTopPipe d rest
      else noTopPipe (if ch = CHR ''{'' then d + 1 else if ch = CHR ''}'' then d - 1 else d) rest)"

definition isField :: "string \<Rightarrow> bool" where
  "isField p \<longleftrightarrow> noTopPipe 0 p \<and> depthAfter 0 p = 0"

lemma splitLoop_piece:
  "noTopPipe d p \<Longrightarrow>
     splitLoop (p @ rest) flds current d = splitLoop rest flds (current @ p) (depthAfter d p)"
  by (induction p arbitrary: current d) auto

lemma splitLoop_Join:
  assumes "ps \<noteq> []" and "last ps \<noteq> []" and "list_all isField ps"
  shows "splitLoop (Join ps ''|'') flds [] 0 = flds @ ps"
  using assms
proof (induction ps arbitrary: flds)
  case Nil
  then show ?case by simp
next
  case (Cons p qs)
  from Cons.prems have p: "noTopPipe 0 p" "depthAfter 0 p = 0"
    by (simp_all add: isField_def)
  show ?case
  proof (cases qs)
    case Nil
    with Cons.prems p splitLoop_piece [of 0 p "[]" flds "[]"] show ?thesis by simp
  next
    case (Cons q rs)
    with Cons.prems have "splitLoop (Join qs ''|'') (flds @ [p]) [] 0 = (flds @ [p]) @ qs"
      by (intro Cons.IH) auto
    with Cons p splitLoop_piece [of 0 p "CHR ''|'' # Join qs ''|''" flds "[]"] show ?thesis
      by simp
  qed
qed

text \<open>
  Claim C4. The splitter of object bodies is pipe-depth-aware: when fields, each with
  its inner pipes enclosed in braces, are joined by pipes, \<open>splitObjectFields\<close> gives
  back exactly those fields, so a pipe inside a deeper \<open>{...}\<close> never ends a field. And
  \<open>{a:{b:int|c:string}|d:bool}\<close> parses to an object type with the two top-level
  fields \<open>a\<close>, a nested object with the fields \<open>b\<close>: int and \<open>c\<close>: string, and \<open>d\<close>: bool.
\<close>

theorem splitObjectFields_depth_aware:
  "(ps \<noteq> [] \<and> last ps \<noteq> [] \<and> list_all isField ps
      \<longrightarrow> splitObjectFields (Join ps ''|'') = ps)
   \<and> parseType ''{a:{b:int|c:string}|d:bool}'' =
       Inr (FieldType ''object'' None
              [(''a'', FieldType ''object'' None
                         [(''b'', FieldType ''int'' None [] [] ''b''),
                          (''c'', FieldType ''string'' None [] [] ''c'')]
                         [''b'', ''c''] ''a''),
               (''d'', FieldType ''bool'' None [] [] ''d'')]
              [''a'', ''d''] [])"
proof
  show "ps \<noteq> [] \<and> last ps \<noteq> [] \<and> list_all isField ps
          \<longrightarrow> splitObjectFields (Join ps ''|'') = ps"
    using splitLoop_Join [of ps "[]"] by (simp add: splitObjectFields_def)
next
  show "parseType ''{a:{b:int|c:string}|d:bool}'' =
       Inr (FieldType ''object'' None
              [(''a'', FieldType ''object'' None
                         [(''b'', FieldType ''int'' None [] [] ''b''),
                          (''c'', FieldType ''string'' None [] [] ''c'')]
                         [''b'', ''c''] ''a''),
               (''d'', FieldType ''bool'' None [] [] ''d'')]
              [''a'', ''d''] [])"
    by code_simp
qed

theorem splitObjectFields_depth_aware_witness:
  "list_all isField [''a:{b:int|c:string}'', ''d:bool'']
   \<and> splitObjectFields ''a:{b:int|c:string}|d:bool'' = [''a:{b:int|c:string}'', ''d:bool'']"
proof -
  have h: "list_all isField [''a:{b:int|c:string}'', ''d:bool'']"
    by (simp add: isField_def)
  with splitObjectFields_depth_aware [of "[''a:{b:int|c:string}'', ''d:bool'']"]
  show ?thesis by simp
qed

section \<open>Properties of the type inferencer\<close>

lemma inferFieldType_Type:
  "Type (inferFieldType L v) \<in> set (basicTypes @ [''array'', ''object''])"
  by (cases v) (simp_all add: basicTypes_def Let_def)

text \<open>
  Claim C7, as the code has it. The element type of an inferred array type is the
  inferred type of the first element, whatever the other elements are. An empty array
  infers an array type with no element type at all (not a string placeholder), which
  renders as \<open>[]\<close>. Inference is a total function whose result is always one of the seven
  scalar kinds, \<open>array\<close> or \<open>object\<close>; nil and values of an unrecognized shape infer
  \<open>string\<close>, a slice of another element type infers an array of strings.
\<close>

theorem inferFieldType_array_first_element:
  "inferFieldType L (VArray (first # rest)) =
     FieldType ''array'' (Some (inferFieldType L first)) [] [] []
   \<and> inferFieldType L (VArray []) = FieldType ''array'' None [] [] []
   \<and> fieldTypeToString (inferFieldType L (VArray [])) = ''[]''
   \<and> Type (inferFieldType L v) \<in> set (basicTypes @ [''array'', ''object''])
   \<and> inferFieldType L VNil = FieldType ''string'' None [] [] []
   \<and> inferFieldType L (VOther s) = FieldType ''string'' None [] [] []
   \<and> inferFieldType L (VSlice xs) =
       FieldType ''array'' (Some (FieldType ''string'' None [] [] [])) [] [] []"
  using inferFieldType_Type [of L v] by simp

text \<open>
  The claim as stated fails on the empty array: its inferred element type is absent,
  and the rendered type \<open>[]\<close> is rejected by the schema grammar parser.
\<close>

theorem inferFieldType_empty_array_counterexample:
  "ElementType (inferFieldType noFloats (VArray [])) = None
   \<and> ElementType (inferFieldType noFloats (VArray [])) \<noteq> Some (FieldType ''string'' None [] [] [])
   \<and> parseType (fieldTypeToString (inferFieldType noFloats (VArray []))) = Inl (UnknownType [])"
  by code_simp

section \<open>Properties of schema parsing and rendering\<close>

text \<open>
  What a line of the meta section declares: the field name and the type expression, or
  nothing for a blank line, a comment and a line with no colon.
\<close>

definition declares :: "string \<Rightarrow> (string \<times> string) option" where
  "declares l =
     (let line = TrimSpace l in
      if line = [] \<or> HasPrefix line ''#'' then None
      else (case Index line CHR '':'' of
              None \<Rightarrow> None
            | Some colonIndex \<Rightarrow>
                Some (TrimSpace (take colonIndex line), TrimSpace (drop (colonIndex + 1) line))))"

definition declarationsOf :: "string \<Rightarrow> (string \<times> string) list" where
  "declarationsOf metaContent =
     List.map_filter declares (Split (TrimSpace metaContent) CHR 0x0A)"

lemma parseSchemaLines_skip:
  "declares l = None \<Longrightarrow> parseSchemaLines (l # ls) schema = parseSchemaLines ls schema"
  by (auto simp: declares_def Let_def split: if_splits option.splits)

lemma parseSchemaLines_declare:
  "declares l = Some (name, typeStr) \<Longrightarrow>
     parseSchemaLines (l # ls) schema =
       (case parseType typeStr of
          Inl err \<Rightarrow> Inl (ErrorParsingType name err)
        | Inr fieldType \<Rightarrow>
            parseSchemaLines ls
              \<lparr>Fields = AList.update name fieldType (Fields schema),
               FieldOrder = FieldOrder schema @ [name]\<rparr>)"
  by (auto simp: declares_def Let_def split: if_splits option.splits)

lemma parseSchemaLines_FieldOrder:
  "parseSchemaLines ls schema = Inr s \<Longrightarrow>
     FieldOrder s = FieldOrder schema @ map fst (List.map_filter declares ls)"
proof (induction ls arbitrary: schema)
  case Nil
  then show ?case by simp
next
  case (Cons l ls)
  show ?case
  proof (cases "declares l")
    case None
    with Cons show ?thesis
      by (simp add: parseSchemaLines_skip del: parseSchemaLines.simps)
  next
    case (Some d)
    obtain name typeStr where d: "d = (name, typeStr)" by (cases d)
    with Some Cons.prems obtain fieldType where
      "parseSchemaLines ls \<lparr>Fields = AList.update name fieldType (Fields schema),
                             FieldOrder = FieldOrder schema @ [name]\<rparr> = Inr s"
      by (auto simp: parseSchemaLines_declare simp del: parseSchemaLines.simps split: sum.splits)
    from Cons.IH [OF this] Some d show ?thesis
      by simp
  qed
qed

lemma parseSchemaLines_succeeds:
  "(\<exists>s. parseSchemaLines ls schema = Inr s) \<longleftrightarrow>
     (\<forall>d \<in> set (List.map_filter declares ls). \<exists>ft. parseType (snd d) = Inr ft)"
proof (induction ls arbitrary: schema)
  case Nil
  then show ?case by simp
next
  case (Cons l ls)
  show ?case
  proof (cases "declares l")
    case None
    with Cons show ?thesis
      by (simp add: parseSchemaLines_skip del: parseSchemaLines.simps)
  next
    case (Some d)
    obtain name typeStr where d: "d = (name, typeStr)" by (cases d)
    show ?thesis
    proof (cases "parseType typeStr")
      case (Inl err)
      with Some d show ?thesis
        by (auto simp: parseSchemaLines_declare
                 simp del: parseSchemaLines.simps)
    next
      case (Inr fieldType)
      with Some d Cons.IH show ?thesis
        by (simp add: parseSchemaLines_declare
                 del: parseSchemaLines.simps)
    qed
  qed
qed

lemma parseSchemaLines_keeps:
  assumes "parseSchemaLines ls schema = Inr s"
    and "\<forall>d \<in> set (List.map_filter declares ls). fst d \<noteq> name"
  shows "map_of (Fields s) name = map_of (Fields schema) name"
  using assms
proof (induction ls arbitrary: schema)
  case Nil
  then show ?case by simp
next
  case (Cons l ls)
  show ?case
  proof (cases "declares l")
    case None
    with Cons show ?thesis
      by (simp add: parseSchemaLines_skip del: parseSchemaLines.simps)
  next
    case (Some d)
    obtain name' typeStr where d: "d = (name', typeStr)" by (cases d)
    with Some Cons.prems(1) obtain fieldType where
      step: "parseSchemaLines ls \<lparr>Fields = AList.update name' fieldType (Fields schema),
                             FieldOrder = FieldOrder schema @ [name']\<rparr> = Inr s"
      by (auto simp: parseSchemaLines_declare simp del: parseSchemaLines.simps split: sum.splits)
    from Cons.prems(2) Some d have ne: "name' \<noteq> name" and
      rest: "\<forall>d \<in> set (List.map_filter declares ls). fst d \<noteq> name"
      by auto
    from Cons.IH [OF step rest] ne show ?thesis
      by (simp add: update_conv')
  qed
qed

lemma parseSchemaLines_last_declaration:
  assumes "parseSchemaLines (before @ l # after) schema = Inr s"
    and "declares l = Some (name, typeStr)"
    and "\<forall>d \<in> set (List.map_filter declares after). fst d \<noteq> name"
  shows "\<exists>ft. parseType typeStr = Inr ft \<and> map_of (Fields s) name = Some ft"
  using assms(1)
proof (induction before arbitrary: schema)
  case Nil
  with assms(2) obtain fieldType where ft: "parseType typeStr = Inr fieldType" and
    step: "parseSchemaLines after \<lparr>Fields = AList.update name fieldType (Fields schema),
                             FieldOrder = FieldOrder schema @ [name]\<rparr> = Inr s"
    by (auto simp: parseSchemaLines_declare simp del: parseSchemaLines.simps split: sum.splits)
  from parseSchemaLines_keeps [OF step assms(3)] ft show ?case
    by (simp add: update_conv')
next
  case (Cons b before)
  show ?case
  proof (cases "declares b")
    case None
    with Cons show ?thesis
      by (simp add: parseSchemaLines_skip del: parseSchemaLines.simps)
  next
    case (Some d)
    obtain name' typeStr' where d: "d = (name', typeStr')" by (cases d)
    with Some Cons.prems obtain fieldType where
      "parseSchemaLines (before @ l # after)
         \<lparr>Fields = AList.update name' fieldType (Fields schema),
          FieldOrder = FieldOrder schema @ [name']\<rparr> = Inr s"
      by (auto simp: parseSchemaLines_declare simp del: parseSchemaLines.simps split: sum.splits)
    from Cons.IH [OF this] show ?thesis .
  qed
qed

lemma foldl_append_concat:
  "foldl (\<lambda>buffer x. buffer @ f x) acc xs = acc @ concat (map f xs)"
  by (induction xs arbitrary: acc) auto

lemma fieldTypeToString_lookupField:
  "(case map_of ofs name of Some fieldType \<Rightarrow> fieldTypeToString fieldType | None \<Rightarrow> [])
     = fieldTypeToString (lookupField ofs name)"
  by (simp add: lookupField_def zeroFieldType_def split: option.splits)

text \<open>
  Claim C8, as the code has it. When a name is declared on several lines, the schema
  maps it to the type of its last declaration; a duplicate raises no error (the parser
  fails exactly when some declared type does not parse); and the field order is the
  declaration order, one entry per declaring line, so that a name declared twice stands
  twice in it.
\<close>

theorem parseSchema_last_declaration_wins:
  assumes "parseSchema metaContent = Inr s"
    and "Split (TrimSpace metaContent) CHR 0x0A = before @ l # after"
    and "declares l = Some (name, typeStr)"
    and "\<forall>d \<in> set (List.map_filter declares after). fst d \<noteq> name"
  shows "(\<exists>ft. parseType typeStr = Inr ft \<and> map_of (Fields s) name = Some ft)
         \<and> FieldOrder s = map fst (declarationsOf metaContent)
         \<and> (\<forall>d \<in> set (declarationsOf metaContent). \<exists>ft. parseType (snd d) = Inr ft)"
proof -
  let ?lines = "Split (TrimSpace metaContent) CHR 0x0A"
  let ?empty = "\<lparr>Fields = [], FieldOrder = []\<rparr>"
  from assms(1) have run: "parseSchemaLines ?lines ?empty = Inr s"
    by (simp add: parseSchema_def)
  with assms(2) have "parseSchemaLines (before @ l # after) ?empty = Inr s"
    by simp
  from parseSchemaLines_last_declaration [OF this assms(3) assms(4)]
  have "\<exists>ft. parseType typeStr = Inr ft \<and> map_of (Fields s) name = Some ft" .
  moreover from parseSchemaLines_FieldOrder [OF run]
  have "FieldOrder s = map fst (declarationsOf metaContent)"
    by (simp add: declarationsOf_def)
  moreover from run parseSchemaLines_succeeds [of ?lines ?empty]
  have "\<forall>d \<in> set (declarationsOf metaContent). \<exists>ft. parseType (snd d) = Inr ft"
    unfolding declarationsOf_def by blast
  ultimately show ?thesis by blast
qed

theorem parseSchema_last_declaration_wins_witness:
  "parseSchema ''a: int\<newline>a: string'' =
     Inr \<lparr>Fields = [(''a'', FieldType ''string'' None [] [] [])], FieldOrder = [''a'', ''a'']\<rparr>
   \<and> (\<exists>ft. parseType ''string'' = Inr ft
            \<and> map_of [(''a'', FieldType ''string'' None [] [] [])] ''a'' = Some ft)
   \<and> declarationsOf ''a: int\<newline>a: string'' = [(''a'', ''int''), (''a'', ''string'')]"
proof -
  let ?s = "\<lparr>Fields = [(''a'', FieldType ''string'' None [] [] [])], FieldOrder = [''a'', ''a'']\<rparr>"
  have p1: "parseSchema ''a: int\<newline>a: string'' = Inr ?s"
    by code_simp
  have p2: "Split (TrimSpace ''a: int\<newline>a: string'') CHR 0x0A = [''a: int''] @ ''a: string'' # []"
    by code_simp
  have p3: "declares ''a: string'' = Some (''a'', ''string'')"
    by code_simp
  have p4: "\<forall>d \<in> set (List.map_filter declares []). fst d \<noteq> ''a''"
    by (simp add: List.map_filter_simps)
  have p5: "declarationsOf ''a: int\<newline>a: string'' = [(''a'', ''int''), (''a'', ''string'')]"
    by code_simp
  from parseSchema_last_declaration_wins [OF p1 p2 p3 p4] p1 p5 show ?thesis
    by simp
qed

text \<open>
  The claim as stated fails where it says that the schema behaves as if the field were
  declared once: after two declarations of \<open>a\<close> the field order holds \<open>a\<close> twice and
  the schema renders two lines, while one declaration gives one entry and one line.
\<close>

theorem parseSchema_duplicate_counterexample:
  "parseSchema ''a: int\<newline>a: string'' =
     Inr \<lparr>Fields = [(''a'', FieldType ''string'' None [] [] [])], FieldOrder = [''a'', ''a'']\<rparr>
   \<and> parseSchema ''a: string'' =
     Inr \<lparr>Fields = [(''a'', FieldType ''string'' None [] [] [])], FieldOrder = [''a'']\<rparr>
   \<and> ToString \<lparr>Fields = [(''a'', FieldType ''string'' None [] [] [])], FieldOrder = [''a'', ''a'']\<rparr>
       = ''    a: string\<newline>    a: string\<newline>''
   \<and> ToString \<lparr>Fields = [(''a'', FieldType ''string'' None [] [] [])], FieldOrder = [''a'']\<rparr>
       = ''    a: string\<newline>''"
  by code_simp

text \<open>
  Claim C3. A schema with a declared field order renders one line per entry of that
  order, in that order, each with the type found under the name in the field map; the
  way the map stores its entries plays no part, so two schemas with the same order and
  the same map contents render the same text. The order of a parsed schema is the order
  of the declaring lines. An object type with a declared order renders its fields in
  that order.
\<close>

theorem ToString_declared_order:
  "(FieldOrder s \<noteq> [] \<longrightarrow>
      ToString s =
        concat (map (\<lambda>name. ''    '' @ name @ '': ''
                       @ fieldTypeToString (lookupField (Fields s) name) @ [CHR 0x0A])
                  (FieldOrder s)))
   \<and> (FieldOrder s \<noteq> [] \<and> FieldOrder s' = FieldOrder s \<and> map_of (Fields s') = map_of (Fields s)
        \<longrightarrow> ToString s' = ToString s)
   \<and> (parseSchema metaContent = Inr s \<longrightarrow> FieldOrder s = map fst (declarationsOf metaContent))
   \<and> (oo \<noteq> [] \<longrightarrow>
        fieldTypeToString (FieldType ''object'' et ofs oo nm) =
          ''{'' @ Join (map (\<lambda>name. name @ '':'' @ fieldTypeToString (lookupField ofs name)) oo) ''|''
              @ ''}'')"
proof (intro conjI impI)
  assume "FieldOrder s \<noteq> []"
  then show "ToString s =
        concat (map (\<lambda>name. ''    '' @ name @ '': ''
                       @ fieldTypeToString (lookupField (Fields s) name) @ [CHR 0x0A])
                  (FieldOrder s))"
    by (simp add: ToString_def GetFieldOrder_def foldl_append_concat)
next
  assume "FieldOrder s \<noteq> [] \<and> FieldOrder s' = FieldOrder s \<and> map_of (Fields s') = map_of (Fields s)"
  then show "ToString s' = ToString s"
    by (simp add: ToString_def GetFieldOrder_def lookupField_def)
next
  assume "parseSchema metaContent = Inr s"
  then show "FieldOrder s = map fst (declarationsOf metaContent)"
    using parseSchemaLines_FieldOrder [of "Split (TrimSpace metaContent) CHR 0x0A"
            "\<lparr>Fields = [], FieldOrder = []\<rparr>" s]
    by (simp add: parseSchema_def declarationsOf_def)
next
  assume "oo \<noteq> []"
  then show "fieldTypeToString (FieldType ''object'' et ofs oo nm) =
          ''{'' @ Join (map (\<lambda>name. name @ '':'' @ fieldTypeToString (lookupField ofs name)) oo) ''|''
              @ ''}''"
    by (simp add: fieldTypeToString_lookupField)
qed

theorem ToString_declared_order_witness:
  "ToString \<lparr>Fields = [(''c'', FieldType ''bool'' None [] [] []),
                       (''a'', FieldType ''int'' None [] [] []),
                       (''b'', FieldType ''object'' None
                                 [(''y'', FieldType ''int'' None [] [] []),
                                  (''x'', FieldType ''string'' None [] [] [])]
                                 [''x'', ''y''] [])],
              FieldOrder = [''a'', ''b'', ''c'']\<rparr>
     = ''    a: int\<newline>    b: {x:string|y:int}\<newline>    c: bool\<newline>''"
proof -
  let ?s = "\<lparr>Fields = [(''c'', FieldType ''bool'' None [] [] []),
                       (''a'', FieldType ''int'' None [] [] []),
                       (''b'', FieldType ''object'' None
                                 [(''y'', FieldType ''int'' None [] [] []),
                                  (''x'', FieldType ''string'' None [] [] [])]
                                 [''x'', ''y''] [])],
              FieldOrder = [''a'', ''b'', ''c'']\<rparr>"
  have h: "FieldOrder ?s \<noteq> []" by simp
  from ToString_declared_order [of ?s, THEN conjunct1, rule_format, OF h]
  have "ToString ?s =
        concat (map (\<lambda>name. ''    '' @ name @ '': ''
                       @ fieldTypeToString (lookupField (Fields ?s) name) @ [CHR 0x0A])
                  (FieldOrder ?s))" .
  then show ?thesis
    by (simp add: lookupField_def)
qed

section \<open>Properties of the value parser\<close>

text \<open>
  The rule of claim C9 in the claim's own words, for comparison with the code: with an
  empty same-line value, a next line that is indented and holds no colon gives the
  value and moves the cursor by two; otherwise the same-line text is used and the
  cursor moves by one.
\<close>

definition claimedScalarLine :: "string \<Rightarrow> string list \<Rightarrow> nat \<Rightarrow> string \<times> nat" where
  "claimedScalarLine valueStr lines currentIndex =
     (if valueStr = [] \<and> currentIndex + 1 < length lines
         \<and> indented (lines ! (currentIndex + 1))
         \<and> \<not> Contains (lines ! (currentIndex + 1)) CHR '':''
      then (TrimSpace (lines ! (currentIndex + 1)), currentIndex + 2)
      else (valueStr, currentIndex + 1))"

text \<open>
  Whether a non-string scalar takes its text from the next line: the same-line value is
  empty and the next line, trimmed, is not empty and holds no colon. Indentation is not
  looked at.
\<close>

definition takesNextLine :: "string \<Rightarrow> string list \<Rightarrow> nat \<Rightarrow> bool" where
  "takesNextLine valueStr lines currentIndex \<longleftrightarrow>
     valueStr = [] \<and> currentIndex + 1 < length lines
     \<and> TrimSpace (lines ! (currentIndex + 1)) \<noteq> []
     \<and> \<not> Contains (TrimSpace (lines ! (currentIndex + 1))) CHR '':''"

definition scalarText :: "string \<Rightarrow> string list \<Rightarrow> nat \<Rightarrow> string" where
  "scalarText valueStr lines currentIndex =
     (if takesNextLine valueStr lines currentIndex then TrimSpace (lines ! (currentIndex + 1))
      else valueStr)"

definition scalarCursor :: "string \<Rightarrow> string list \<Rightarrow> nat \<Rightarrow> nat" where
  "scalarCursor valueStr lines currentIndex =
     (if takesNextLine valueStr lines currentIndex then currentIndex + 2 else currentIndex + 1)"

lemma nextLineValue_eq:
  "nextLineValue valueStr lines currentIndex =
     (scalarText valueStr lines currentIndex,
      if takesNextLine valueStr lines currentIndex then currentIndex + 1 else currentIndex)"
  by (simp add: nextLineValue_def scalarText_def takesNextLine_def Let_def)

text \<open>
  Claim C9, as the code has it. The rule is not uniform. A string field with an empty
  same-line value takes the trimmed next line whenever that line is indented, colon or
  not, and the cursor moves by two; otherwise the same-line text is the value and the
  cursor moves by one. An int, float or bool field with an empty same-line value takes
  the next line whenever its trimmed text is not empty and holds no colon, indented or
  not; the text is then converted, the cursor moving by two when the next line was
  taken and by one otherwise, and a failed conversion is an error carrying the text.
\<close>

theorem parseValue_scalar_lines:
  "(Type fieldType = ''string'' \<longrightarrow>
      parseValue L fieldType valueStr lines currentIndex =
        (if valueStr = [] \<and> currentIndex + 1 < length lines
            \<and> indented (lines ! (currentIndex + 1))
         then Inr (VString (TrimSpace (lines ! (currentIndex + 1))), currentIndex + 2)
         else Inr (VString valueStr, currentIndex + 1)))
   \<and> (Type fieldType \<in> set intTypes \<longrightarrow>
      parseValue L fieldType valueStr lines currentIndex =
        (case ParseInt (TrimSpace (scalarText valueStr lines currentIndex)) of
           None \<Rightarrow> Inl (InvalidIntegerValue (scalarText valueStr lines currentIndex))
         | Some val \<Rightarrow> Inr (VInt val, scalarCursor valueStr lines currentIndex)))
   \<and> (Type fieldType = ''float32'' \<longrightarrow>
      parseValue L fieldType valueStr lines currentIndex =
        (case ParseFloat L (TrimSpace (scalarText valueStr lines currentIndex)) 32 of
           None \<Rightarrow> Inl (InvalidFloat32Value (scalarText valueStr lines currentIndex))
         | Some val \<Rightarrow> Inr (VFloat32 val, scalarCursor valueStr lines currentIndex)))
   \<and> (Type fieldType = ''float64'' \<longrightarrow>
      parseValue L fieldType valueStr lines currentIndex =
        (case ParseFloat L (TrimSpace (scalarText valueStr lines currentIndex)) 64 of
           None \<Rightarrow> Inl (InvalidFloat64Value (scalarText valueStr lines currentIndex))
         | Some val \<Rightarrow> Inr (VFloat64 val, scalarCursor valueStr lines currentIndex)))
   \<and> (Type fieldType = ''bool'' \<longrightarrow>
      parseValue L fieldType valueStr lines currentIndex =
        (case ParseBool (TrimSpace (scalarText valueStr lines currentIndex)) of
           None \<Rightarrow> Inl (InvalidBooleanValue (scalarText valueStr lines currentIndex))
         | Some val \<Rightarrow> Inr (VBool val, scalarCursor valueStr lines currentIndex)))"
proof (intro conjI impI)
  assume "Type fieldType = ''string''"
  then show "parseValue L fieldType valueStr lines currentIndex =
        (if valueStr = [] \<and> currentIndex + 1 < length lines
            \<and> indented (lines ! (currentIndex + 1))
         then Inr (VString (TrimSpace (lines ! (currentIndex + 1))), currentIndex + 2)
         else Inr (VString valueStr, currentIndex + 1))"
    by (subst parseValue.simps) simp
next
  assume "Type fieldType \<in> set intTypes"
  then show "parseValue L fieldType valueStr lines currentIndex =
        (case ParseInt (TrimSpace (scalarText valueStr lines currentIndex)) of
           None \<Rightarrow> Inl (InvalidIntegerValue (scalarText valueStr lines currentIndex))
         | Some val \<Rightarrow> Inr (VInt val, scalarCursor valueStr lines currentIndex))"
    by (subst parseValue.simps)
       (auto simp: nextLineValue_eq scalarCursor_def intTypes_def split: option.splits)
next
  assume "Type fieldType = ''float32''"
  then show "parseValue L fieldType valueStr lines currentIndex =
        (case ParseFloat L (TrimSpace (scalarText valueStr lines currentIndex)) 32 of
           None \<Rightarrow> Inl (InvalidFloat32Value (scalarText valueStr lines currentIndex))
         | Some val \<Rightarrow> Inr (VFloat32 val, scalarCursor valueStr lines currentIndex))"
    by (subst parseValue.simps)
       (auto simp: nextLineValue_eq scalarCursor_def intTypes_def split: option.splits)
next
  assume "Type fieldType = ''float64''"
  then show "parseValue L fieldType valueStr lines currentIndex =
        (case ParseFloat L (TrimSpace (scalarText valueStr lines currentIndex)) 64 of
           None \<Rightarrow> Inl (InvalidFloat64Value (scalarText valueStr lines currentIndex))
         | Some val \<Rightarrow> Inr (VFloat64 val, scalarCursor valueStr lines currentIndex))"
    by (subst parseValue.simps)
       (auto simp: nextLineValue_eq scalarCursor_def intTypes_def split: option.splits)
next
  assume "Type fieldType = ''bool''"
  then show "parseValue L fieldType valueStr lines currentIndex =
        (case ParseBool (TrimSpace (scalarText valueStr lines currentIndex)) of
           None \<Rightarrow> Inl (InvalidBooleanValue (scalarText valueStr lines currentIndex))
         | Some val \<Rightarrow> Inr (VBool val, scalarCursor valueStr lines currentIndex))"
    by (subst parseValue.simps)
       (auto simp: nextLineValue_eq scalarCursor_def intTypes_def split: option.splits)
qed

theorem parseValue_scalar_lines_witness:
  "parseValue noFloats (FieldType ''int'' None [] [] []) [] [''age:'', ''        30''] 0
     = Inr (VInt 30, 2)
   \<and> parseValue noFloats (FieldType ''string'' None [] [] []) ''x'' [''s: x'', ''    y''] 0
     = Inr (VString ''x'', 1)
   \<and> parseValue noFloats (FieldType ''bool'' None [] [] []) [] [''active:'', ''    maybe''] 0
     = Inl (InvalidBooleanValue ''maybe'')"
proof -
  have t: "Type (FieldType ''int'' None [] [] []) \<in> set intTypes"
    by (simp add: intTypes_def)
  have s: "Type (FieldType ''string'' None [] [] []) = ''string''"
    by simp
  have u: "Type (FieldType ''bool'' None [] [] []) = ''bool''"
    by simp
  have a: "scalarText [] [''age:'', ''        30''] 0 = ''30''"
    by code_simp
  have b: "scalarCursor [] [''age:'', ''        30''] 0 = 2"
    by code_simp
  have c: "ParseInt (TrimSpace ''30'') = Some 30"
    by code_simp
  have d: "scalarText [] [''active:'', ''    maybe''] 0 = ''maybe''"
    by code_simp
  have e: "ParseBool (TrimSpace ''maybe'') = None"
    by code_simp
  from parseValue_scalar_lines [of "FieldType ''int'' None [] [] []" noFloats "[]"
         "[''age:'', ''        30'']" 0, THEN conjunct2, THEN conjunct1, rule_format, OF t]
       parseValue_scalar_lines [of "FieldType ''string'' None [] [] []" noFloats "''x''"
         "[''s: x'', ''    y'']" 0, THEN conjunct1, rule_format, OF s]
       parseValue_scalar_lines [of "FieldType ''bool'' None [] [] []" noFloats "[]"
         "[''active:'', ''    maybe'']" 0, THEN conjunct2, THEN conjunct2, THEN conjunct2,
         THEN conjunct2, rule_format, OF u]
  show ?thesis
    by (simp add: a b c d e)
qed

text \<open>
  The claim as stated fails for a string field whose next line is indented and holds a
  colon (the line is taken, the claim says it is not), and for an int field whose next
  line is not indented (the line is taken as well).
\<close>

theorem parseValue_scalar_lines_counterexample:
  "parseValue noFloats (FieldType ''string'' None [] [] []) [] [''s:'', ''    a:b''] 0
     = Inr (VString ''a:b'', 2)
   \<and> claimedScalarLine [] [''s:'', ''    a:b''] 0 = ([], 1)
   \<and> parseValue noFloats (FieldType ''int'' None [] [] []) [] [''n:'', ''42''] 0
     = Inr (VInt 42, 2)
   \<and> claimedScalarLine [] [''n:'', ''42''] 0 = ([], 1)"
  by code_simp

section \<open>Properties of the validator\<close>










section \<open>Properties of array parsing\<close>







section \<open>Properties of positional object decoding\<close>













section \<open>Writing and reading back a one-element array\<close>

lemma dropWhile_isSpace_head:
  "s \<noteq> [] \<Longrightarrow> \<not> isSpace (hd s) \<Longrightarrow> dropWhile isSpace s = s"
  by (cases s) auto

lemma TrimRight_nonspace:
  "\<not> isSpace c \<Longrightarrow> TrimRight (xs @ c # ys) = xs @ c # TrimRight ys"
proof -
  assume c: "\<not> isSpace c"
  have "dropWhile isSpace (rev ys @ c # rev xs) = dropWhile isSpace (rev ys) @ c # rev xs"
  proof (induction "rev ys" arbitrary: ys)
    case Nil
    with c show ?case by simp
  next
    case (Cons a as)
    from Cons(2) [symmetric] have r: "rev ys = a # as" .
    then have ys: "ys = rev as @ [a]" by (metis rev_rev_ident rev.simps(2))
    show ?case
    proof (cases "isSpace a")
      case True
      with Cons(1) [of "rev as"] r show ?thesis by simp
    next
      case False
      with r show ?thesis by simp
    qed
  qed
  then show ?thesis by (simp add: TrimRight_def)
qed

lemma TrimRight_idem: "TrimRight (TrimRight s) = TrimRight s"
  by (simp add: TrimRight_def)

lemma set_TrimRight: "set (TrimRight s) \<subseteq> set s"
  unfolding TrimRight_def using set_dropWhileD [of _ isSpace "rev s"] by auto

lemma set_TrimSpace: "set (TrimSpace s) \<subseteq> set s"
  unfolding TrimSpace_def using set_TrimRight [of "dropWhile isSpace s"] set_dropWhileD [of _ isSpace s]
  by auto

lemma Split_no_separator: "sep \<notin> set s \<Longrightarrow> Split s sep = [s]"
  by (induction s) auto

lemma Index_first: "c \<notin> set xs \<Longrightarrow> Index (xs @ c # ys) c = Some (length xs)"
  by (induction xs) auto

lemma dropWhile_none: "(\<And>x. x \<in> set xs \<Longrightarrow> \<not> P x) \<Longrightarrow> dropWhile P xs = xs"
  by (cases xs) auto

lemma TrimRightNewlines_id: "CHR 0x0A \<notin> set s \<Longrightarrow> TrimRightNewlines s = s"
proof -
  assume "CHR 0x0A \<notin> set s"
  then have "dropWhile (\<lambda>c. c = CHR 0x0A) (rev s) = rev s"
    by (intro dropWhile_none) auto
  then show ?thesis by (simp add: TrimRightNewlines_def)
qed

text \<open>A field name with no white space, colon or bracket in it.\<close>

definition plainName :: "string \<Rightarrow> bool" where
  "plainName name \<longleftrightarrow>
     list_all (\<lambda>c. \<not> isSpace c \<and> c \<noteq> CHR '':'' \<and> c \<noteq> CHR ''['' \<and> c \<noteq> CHR '']'') name"

lemma plainName_set:
  "plainName name \<Longrightarrow> c \<in> set name \<Longrightarrow>
     \<not> isSpace c \<and> c \<noteq> CHR '':'' \<and> c \<noteq> CHR ''['' \<and> c \<noteq> CHR '']''"
  by (simp add: plainName_def list_all_iff)

lemma intToString_1: "intToString 1 = ''1''"
  by code_simp

lemma plainName_head:
  assumes "plainName name"
  shows "dropWhile isSpace (name @ CHR ''['' # rest) = name @ CHR ''['' # rest"
proof (cases name)
  case Nil
  then show ?thesis by (simp add: isSpace_def)
next
  case (Cons c cs)
  with assms plainName_set [of name c] show ?thesis by simp
qed

lemma arrayNotation_one:
  assumes "plainName name"
  shows "arrayNotation (name @ ''[1]'') = (name, 1)"
proof -
  from assms have a: "CHR ''['' \<notin> set name" and b: "CHR '']'' \<notin> set name"
    using plainName_set [of name] by blast+
  from a have i1: "Index (name @ ''[1]'') CHR ''['' = Some (length name)"
    using Index_first [of "CHR ''[''" name "''1]''"] by simp
  from b have i2: "Index (name @ ''[1]'') CHR '']'' = Some (length name + 2)"
    using Index_first [of "CHR '']''" "name @ ''[1''" "[]"] by simp
  have "Atoi ''1'' = Some 1" by code_simp
  with i1 i2 show ?thesis
    by (simp add: arrayNotation_def)
qed

text \<open>
  Claim C10, as the code has it. For an array field of scalar element type under a
  plain name (no white space, colon or bracket), with exactly one element whose printed
  text holds no pipe and no newline: the writer emits the single line
  \<open>name[1]: text\<close>, and parsing that line back against a schema that declares the
  field fails with an array size mismatch, declared 1, found 0.
\<close>

theorem single_element_array_is_not_read_back:
  assumes ft: "Type fieldType = ''array''" "ElementType fieldType = Some et" "isSimpleType (Type et)"
    and schema: "map_of (Fields schema) name = Some fieldType"
    and name: "plainName name"
    and noPipe: "CHR ''|'' \<notin> set (fmtV L v)"
    and noNewline: "CHR 0x0A \<notin> set (fmtV L v)"
  shows "writeField L name (VArray [v]) fieldType 0 = Inr (name @ ''[1]: '' @ fmtV L v)
         \<and> ParseData L schema (name @ ''[1]: '' @ fmtV L v)
             = Inl (ErrorParsingField name (ArraySizeMismatch 1 0))"
proof
  let ?t = "fmtV L v"
  let ?w = "TrimRight (CHR '' '' # ?t)"
  let ?head = "name @ ''[1]''"
  let ?T = "?head @ CHR '':'' # ?w"
  from name have nameNL: "CHR 0x0A \<notin> set name"
    using plainName_set [of name "CHR 0x0A"] by (auto simp: isSpace_def)
  from name have nameColon: "CHR '':'' \<notin> set name"
    using plainName_set [of name "CHR '':''"] by auto
  have line: "name @ ''[1]: '' @ ?t = ?head @ CHR '':'' # CHR '' '' # ?t"
    by simp
  from nameNL noNewline have "CHR 0x0A \<notin> set (name @ ''[1]: '' @ ?t)"
    by simp
  then have "TrimRightNewlines (name @ ''[1]: '' @ ?t) = name @ ''[1]: '' @ ?t"
    by (rule TrimRightNewlines_id)
  with ft show "writeField L name (VArray [v]) fieldType 0 = Inr (name @ ''[1]: '' @ ?t)"
    by (simp add: writeField_def Repeat_def intTypes_def intToString_1)

  have wset: "set ?w \<subseteq> insert CHR '' '' (set ?t)"
    using set_TrimRight [of "CHR '' '' # ?t"] by simp
  have trim: "TrimSpace (name @ ''[1]: '' @ ?t) = ?T"
  proof -
    have "dropWhile isSpace (name @ ''[1]: '' @ ?t) = name @ ''[1]: '' @ ?t"
      using plainName_head [OF name, of "''1]: '' @ ?t"] by simp
    moreover have "TrimRight (?head @ CHR '':'' # CHR '' '' # ?t) = ?T"
      by (rule TrimRight_nonspace) (simp add: isSpace_def)
    ultimately show ?thesis by (simp add: TrimSpace_def)
  qed
  from nameNL noNewline wset have "CHR 0x0A \<notin> set ?T"
    by auto
  then have split: "Split ?T CHR 0x0A = [?T]"
    by (rule Split_no_separator)
  have trimT: "TrimSpace ?T = ?T"
  proof -
    have "dropWhile isSpace ?T = ?T"
      using plainName_head [OF name, of "''1]:'' @ ?w"] by simp
    moreover have "TrimRight ?T = ?head @ CHR '':'' # TrimRight ?w"
      by (rule TrimRight_nonspace) (simp add: isSpace_def)
    ultimately show ?thesis by (simp add: TrimSpace_def TrimRight_idem)
  qed
  from nameColon have idx: "Index ?T CHR '':'' = Some (length ?head)"
    by (intro Index_first) simp
  have nameField: "TrimSpace (take (length ?head) ?T) = ?head"
  proof -
    have "dropWhile isSpace ?head = ?head"
      using plainName_head [OF name, of "''1]''"] by simp
    moreover have "TrimRight ((name @ ''[1'') @ CHR '']'' # []) = (name @ ''[1'') @ CHR '']'' # TrimRight []"
      by (rule TrimRight_nonspace) (simp add: isSpace_def)
    then have "TrimRight ?head = ?head" by (simp add: TrimRight_def)
    ultimately show ?thesis by (simp add: TrimSpace_def)
  qed
  have valueField: "drop (length ?head + 1) ?T = ?w"
    by simp
  from noPipe wset set_TrimSpace [of ?w] have notInline: "\<not> Contains (TrimSpace ?w) CHR ''|''"
    by (auto simp: Contains_def)
  from ft notInline
  have pv: "parseValueWithArraySize L fieldType (TrimSpace ?w) [?T] 0 1 = Inl (ArraySizeMismatch 1 0)"
    by (simp add: parseValueWithArraySize_def parseArrayWithDeclaredSize_def)
  from schema have nonempty: "Fields schema \<noteq> []"
    by auto
  define T where "T = ?T"
  define n where "n = length ?head"
  define fv where "fv = TrimSpace ?w"
  have f1: "TrimSpace T = T" and f2: "T \<noteq> []"
    using trimT by (simp_all add: T_def)
  have f3: "Index T CHR '':'' = Some n"
    using idx by (simp add: T_def n_def)
  have f4: "TrimSpace (take n T) = ?head"
    using nameField by (simp add: T_def n_def)
  have f5: "TrimSpace (drop (Suc n) T) = fv"
    using valueField by (simp add: T_def n_def fv_def)
  have f6: "parseValueWithArraySize L fieldType fv [T] 0 1 = Inl (ArraySizeMismatch 1 0)"
    using pv by (simp add: T_def fv_def)
  have "ParseDataLoop L schema [T] 0 [] = Inl (ErrorParsingField name (ArraySizeMismatch 1 0))"
    by (subst ParseDataLoop.simps)
       (simp add: f1 f2 f3 f4 f5 f6 arrayNotation_one [OF name] schema Let_def)
  moreover from trim split have "Split (TrimSpace (name @ ''[1]: '' @ ?t)) CHR 0x0A = [T]"
    by (simp add: T_def)
  ultimately show "ParseData L schema (name @ ''[1]: '' @ ?t)
          = Inl (ErrorParsingField name (ArraySizeMismatch 1 0))"
    using nonempty by (simp add: ParseData_def)
qed

theorem single_element_array_is_not_read_back_witness:
  "writeField noFloats ''tags'' (VArray [VString ''solo''])
     (FieldType ''array'' (Some (FieldType ''string'' None [] [] [])) [] [] []) 0
     = Inr ''tags[1]: solo''
   \<and> ParseData noFloats
       \<lparr>Fields = [(''tags'', FieldType ''array'' (Some (FieldType ''string'' None [] [] [])) [] [] [])],
        FieldOrder = [''tags'']\<rparr>
       ''tags[1]: solo''
     = Inl (ErrorParsingField ''tags'' (ArraySizeMismatch 1 0))"
proof -
  let ?ft = "FieldType ''array'' (Some (FieldType ''string'' None [] [] [])) [] [] []"
  let ?schema = "\<lparr>Fields = [(''tags'', ?ft)], FieldOrder = [''tags'']\<rparr>"
  have p1: "Type ?ft = ''array''" by simp
  have p2: "ElementType ?ft = Some (FieldType ''string'' None [] [] [])" by simp
  have p3: "isSimpleType (Type (FieldType ''string'' None [] [] []))"
    by (simp add: isSimpleType_def)
  have p4: "map_of (Fields ?schema) ''tags'' = Some ?ft" by simp
  have p5: "plainName ''tags''"
    by (simp add: plainName_def isSpace_def)
  have p6: "CHR ''|'' \<notin> set (fmtV noFloats (VString ''solo''))" by simp
  have p7: "CHR 0x0A \<notin> set (fmtV noFloats (VString ''solo''))" by simp
  from single_element_array_is_not_read_back [OF p1 p2 p3 p4 p5 p6 p7]
  show ?thesis by simp
qed

text \<open>
  The claim as stated fails for an element whose text holds a pipe (the emitted line
  holds a pipe and two elements are found, not none) and for one whose text holds a
  newline followed by an indented line (the line is parsed back without an error).
\<close>

theorem single_element_array_counterexample:
  "writeField noFloats ''tags'' (VArray [VString ''a|b''])
     (FieldType ''array'' (Some (FieldType ''string'' None [] [] [])) [] [] []) 0
     = Inr ''tags[1]: a|b''
   \<and> ParseData noFloats
       \<lparr>Fields = [(''tags'', FieldType ''array'' (Some (FieldType ''string'' None [] [] [])) [] [] [])],
        FieldOrder = [''tags'']\<rparr>
       ''tags[1]: a|b''
     = Inl (ErrorParsingField ''tags'' (ArraySizeMismatch 1 2))
   \<and> writeField noFloats ''tags'' (VArray [VString ''a\<newline>    b''])
     (FieldType ''array'' (Some (FieldType ''string'' None [] [] [])) [] [] []) 0
     = Inr ''tags[1]: a\<newline>    b''
   \<and> ParseData noFloats
       \<lparr>Fields = [(''tags'', FieldType ''array'' (Some (FieldType ''string'' None [] [] [])) [] [] [])],
        FieldOrder = [''tags'']\<rparr>
       ''tags[1]: a\<newline>    b''
     = Inr [(''tags'', VArray [VString ''b''])]"
  by code_simp

section \<open>The round trip\<close>

text \<open>
  Claim C1 at two values of representable types. For the object with the one field
  \<open>tags = ["solo"]\<close>, the inferred schema declares \<open>tags: string[]\<close>, the writer emits
  \<open>tags[1]: solo\<close>, and the parser fails on that text with an array size mismatch. For
  the object with the one field \<open>scores = [95, 87, 92]\<close>, the text \<open>scores[3]: 95|87|92\<close>
  parses back to an array of the three strings, not of the three numbers.
\<close>

theorem roundtrip_fails_on_arrays:
  "InferSchemaFromJSON noFloats (VObject [(''tags'', VArray [VString ''solo''])])
     = \<lparr>Fields = [(''tags'', FieldType ''array'' (Some (FieldType ''string'' None [] [] [])) [] [] [])],
        FieldOrder = [''tags'']\<rparr>
   \<and> writeData noFloats
       (InferSchemaFromJSON noFloats (VObject [(''tags'', VArray [VString ''solo''])]))
       [(''tags'', VArray [VString ''solo''])]
     = Inr ''tags[1]: solo\<newline>''
   \<and> ParseData noFloats
       (InferSchemaFromJSON noFloats (VObject [(''tags'', VArray [VString ''solo''])]))
       ''tags[1]: solo\<newline>''
     = Inl (ErrorParsingField ''tags'' (ArraySizeMismatch 1 0))
   \<and> writeData noFloats
       (InferSchemaFromJSON noFloats (VObject [(''scores'', VArray [VInt 95, VInt 87, VInt 92])]))
       [(''scores'', VArray [VInt 95, VInt 87, VInt 92])]
     = Inr ''scores[3]: 95|87|92\<newline>''
   \<and> ParseData noFloats
       (InferSchemaFromJSON noFloats (VObject [(''scores'', VArray [VInt 95, VInt 87, VInt 92])]))
       ''scores[3]: 95|87|92\<newline>''
     = Inr [(''scores'', VArray [VString ''95'', VString ''87'', VString ''92''])]"
  by code_simp

end
